theory Spec2Isabelle
  imports Main "HOL-Library.Word"
begin

section \<open>Smart energy meter: the main loop and the WebClient\<close>

text \<open>
  The firmware is a single cooperative loop (main.ino) over a handful of global variables
  and one \<open>WebClient\<close> object (WebClient.h). Everything the loop reads from the outside
  world during one iteration (WiFi status, \<open>millis()\<close>, the IR handler, the sensors, the
  HTTP responses) is collected in a record of inputs, one field per read in the source, so
  that two reads of \<open>millis()\<close> in the same iteration may differ. Everything the loop does
  to the outside world is appended to a trace of events. \<open>Serial\<close> output is left out.
\<close>

subsection \<open>Data\<close>

text \<open>\<open>unsigned long\<close> on the ESP32 is 32 bits wide; subtraction wraps.\<close>

type_synonym ulong = "32 word"

text \<open>
  What \<open>deserializeJson\<close> made of the body of the GET response: a
  \<open>DeserializationError\<close>, or a document, given by the two values that the conversions
  \<open>bool newRelay1 = doc["relay1"]\<close> and \<open>bool newRelay2 = doc["relay2"]\<close> yield.
\<close>

datatype payload = ParseError | Doc bool bool

text \<open>
  The observable actions: the call of \<open>webClient.maintain()\<close> and the reconnect it may
  start, the call of \<open>irHandler.update()\<close> with its result, the \<open>update()\<close> of current
  sensor 1, 2 or 3, the reads \<open>getCurrent(n)\<close> and \<open>getRmsVoltage()\<close>,
  \<open>display.showCurrents\<close>, the relay writes \<open>setRelay1\<close> and \<open>setRelay2\<close>, and the
  three HTTP requests: \<open>http.POST\<close> on \<open>/api/relay/state\<close> and on \<open>/api/data\<close> with
  the fields of the request body, and \<open>http.GET\<close> on \<open>/api/relay/state\<close>.
\<close>

datatype 'f event =
    Maintain
  | WifiReconnect
  | IrUpdate bool
  | HttpPostRelay bool bool
  | SensorUpdate nat
  | GetCurrent nat
  | GetRmsVoltage
  | ShowCurrents 'f 'f 'f
  | HttpPostData 'f 'f 'f 'f 'f 'f 'f 'f
  | HttpGetRelay
  | SetRelay1 bool
  | SetRelay2 bool

text \<open>
  The globals of main.ino (lines 38-58), the two mutable members of \<open>WebClient\<close>, the
  two relay outputs held by \<open>pinConfig\<close>, and the trace. The type \<open>'f\<close> stands for
  \<open>float\<close>: its addition and multiplication are used as they come, and no law of
  arithmetic is assumed of them.
\<close>

record 'f state =
  connected :: bool
  lastReconnectAttempt :: ulong
  relay1 :: bool
  relay2 :: bool
  previousMillis :: ulong
  previousWebMillis :: ulong
  previousRelayPoll :: ulong
  lastVoltage :: 'f
  lastCurrent1 :: 'f
  lastCurrent2 :: 'f
  lastCurrent3 :: 'f
  lastTotalCurrent :: 'f
  lastPower1 :: 'f
  lastPower2 :: 'f
  lastTotalPower :: 'f
  previousRelay1State :: bool
  previousRelay2State :: bool
  initialSyncDone :: bool
  trace :: "'f event list"

text \<open>
  The inputs of one iteration of \<open>loop()\<close>, in the order in which the source reads them.
  A \<open>wifi_\<close> field is the truth value of \<open>WiFi.status() == WL_CONNECTED\<close> at that
  place; an \<open>ms_\<close> field is the value of \<open>millis()\<close> there (the first one of a block
  is compared, the \<open>_set\<close> one is stored). \<open>irHandler_update\<close> stands for the call
  \<open>irHandler.update()\<close> (IRHandler.h is missing): from the relay outputs it finds it
  yields its return value and the relay outputs it leaves behind. \<open>cur1\<close>, \<open>cur2\<close>,
  \<open>cur3\<close> and \<open>volt\<close> are what \<open>getCurrent\<close> and \<open>getRmsVoltage\<close> return when
  called (Current.h and Voltage.h are missing). The \<open>_code\<close> fields are the status codes
  that \<open>http.POST\<close> and \<open>http.GET\<close> return, \<open>get_body\<close> the parsed response body.
\<close>

record 'f tick =
  wifi_maintain :: bool
  ms_maintain :: ulong
  ms_maintain_set :: ulong
  irHandler_update :: "bool \<times> bool \<Rightarrow> bool \<times> bool \<times> bool"
  wifi_ir :: bool
  post_relay_code :: int
  ms_print :: ulong
  ms_print_set :: ulong
  cur1 :: 'f
  cur2 :: 'f
  cur3 :: 'f
  volt :: 'f
  ms_web :: ulong
  ms_web_set :: ulong
  wifi_web :: bool
  post_data_code :: int
  ms_poll :: ulong
  ms_poll_set :: ulong
  wifi_poll :: bool
  get_code :: int
  get_body :: payload

text \<open>The inputs of \<open>setup()\<close>.\<close>

record boot =
  boot_relay1 :: bool
  boot_relay2 :: bool
  boot_wifi_status :: "nat \<Rightarrow> bool"
  boot_wifi :: bool
  boot_post_code :: int

subsection \<open>Constants\<close>

definition printPeriod :: ulong where
  "printPeriod = 1500"

definition webSendPeriod :: ulong where
  "webSendPeriod = 10000"

definition relayPollPeriod :: ulong where
  "relayPollPeriod = 3000"

definition reconnectInterval :: ulong where
  "reconnectInterval = 30000"

subsection \<open>The trace\<close>

definition emit :: "'f event \<Rightarrow> 'f state \<Rightarrow> 'f state" where
  "emit e s = s\<lparr>trace := trace s @ [e]\<rparr>"

subsection \<open>PinConfig\<close>

text \<open>
  Modelled from the spec: \<open>PinConfig\<close> (PinConfig.h is missing). The spec describes the
  Relay Authority as the in-memory boolean state of two relays and the single writer of the
  physical relay outputs, with a read \<open>get(relay_id) -> bool\<close> and a write
  \<open>set(relay_id, bool)\<close>.
\<close>

definition getRelay1State :: "'f state \<Rightarrow> bool" where
  "getRelay1State s = relay1 s"

definition getRelay2State :: "'f state \<Rightarrow> bool" where
  "getRelay2State s = relay2 s"

definition setRelay1 :: "bool \<Rightarrow> 'f state \<Rightarrow> 'f state" where
  "setRelay1 b s = emit (SetRelay1 b) (s\<lparr>relay1 := b\<rparr>)"

definition setRelay2 :: "bool \<Rightarrow> 'f state \<Rightarrow> 'f state" where
  "setRelay2 b s = emit (SetRelay2 b) (s\<lparr>relay2 := b\<rparr>)"

subsection \<open>WebClient\<close>

text \<open>
  \<open>WebClient::begin\<close>: the wait loop asks \<open>WiFi.status()\<close> once per round, for at most
  20 rounds of \<open>attempts\<close>; the answer to the call after the loop decides \<open>connected\<close>.
  \<open>st k\<close> is the answer to the \<open>k\<close>-th call.
\<close>

function wait_wifi :: "(nat \<Rightarrow> bool) \<Rightarrow> nat \<Rightarrow> nat" where
  "wait_wifi st attempts =
     (if \<not> st attempts \<and> attempts < 20 then wait_wifi st (attempts + 1) else attempts)"
  by pat_completeness auto
termination
  by (relation "measure (\<lambda>(st, attempts). 20 - attempts)") auto

definition webClient_begin :: "(nat \<Rightarrow> bool) \<Rightarrow> 'f state \<Rightarrow> 'f state" where
  "webClient_begin st s =
     (let attempts = wait_wifi st 0 in
      if st (attempts + 1) then s\<lparr>connected := True\<rparr> else s\<lparr>connected := False\<rparr>)"

text \<open>\<open>WebClient::maintain\<close> (lines 311-327).\<close>

definition maintain :: "'f tick \<Rightarrow> 'f state \<Rightarrow> 'f state" where
  "maintain i s0 =
     (let s = emit Maintain s0 in
      if \<not> wifi_maintain i then
        (let s1 = s\<lparr>connected := False\<rparr> in
         if reconnectInterval \<le> ms_maintain i - lastReconnectAttempt s1
         then emit WifiReconnect (s1\<lparr>lastReconnectAttempt := ms_maintain_set i\<rparr>)
         else s1)
      else if \<not> connected s then s\<lparr>connected := True\<rparr>
      else s)"

text \<open>\<open>WebClient::isConnected\<close> (lines 457-459); \<open>wifi\<close> is the WiFi status read there.\<close>

definition isConnected :: "bool \<Rightarrow> 'f state \<Rightarrow> bool" where
  "isConnected wifi s = (connected s \<and> wifi)"

text \<open>
  \<open>WebClient::sendSensorData\<close> (lines 330-368); \<open>code\<close> is what \<open>http.POST\<close> returns.
\<close>

definition sendSensorData ::
  "int \<Rightarrow> 'f \<Rightarrow> 'f \<Rightarrow> 'f \<Rightarrow> 'f \<Rightarrow> 'f \<Rightarrow> 'f \<Rightarrow> 'f \<Rightarrow> 'f \<Rightarrow> 'f state \<Rightarrow> bool \<times> 'f state" where
  "sendSensorData code voltage current1 current2 current3 totalCurrent power_1 power_2 totalPower s =
     (if \<not> connected s then (False, s)
      else
        (let s1 = emit (HttpPostData voltage current1 current2 current3
                          totalCurrent power_1 power_2 totalPower) s in
         if code > 0 then (True, s1) else (False, s1)))"

text \<open>\<open>WebClient::postRelayState\<close> (lines 371-402).\<close>

definition postRelayState :: "int \<Rightarrow> bool \<Rightarrow> bool \<Rightarrow> 'f state \<Rightarrow> bool \<times> 'f state" where
  "postRelayState code relay1State relay2State s =
     (if \<not> connected s then (False, s)
      else
        (let s1 = emit (HttpPostRelay relay1State relay2State) s in
         if code = 200 then (True, s1) else (False, s1)))"

text \<open>
  \<open>WebClient::getRelayState\<close> (lines 405-454). The two reference parameters are passed in
  and handed back next to the return value: the result is
  \<open>((returned, relay1State, relay2State), state)\<close>.
\<close>

definition getRelayState ::
  "int \<Rightarrow> payload \<Rightarrow> bool \<Rightarrow> bool \<Rightarrow> 'f state \<Rightarrow> (bool \<times> bool \<times> bool) \<times> 'f state" where
  "getRelayState code body relay1State relay2State s =
     (if \<not> connected s then ((False, relay1State, relay2State), s)
      else
        (let s1 = emit HttpGetRelay s in
         if code = 200 then
           (case body of
              Doc newRelay1 newRelay2 \<Rightarrow>
                (let changed0 = False;
                     (r1, changed1) =
                        (if newRelay1 \<noteq> relay1State then (newRelay1, True)
                         else (relay1State, changed0));
                     (r2, changed2) =
                        (if newRelay2 \<noteq> relay2State then (newRelay2, True)
                         else (relay2State, changed1))
                 in ((changed2, r1, r2), s1))
            | ParseError \<Rightarrow> ((False, relay1State, relay2State), s1))
         else ((False, relay1State, relay2State), s1)))"

subsection \<open>The main loop\<close>

text \<open>
  The body of \<open>if (irHandler.update())\<close> (lines 137-149): read the relay outputs, push them
  if connected, remember them.
\<close>

definition ir_branch :: "'f tick \<Rightarrow> 'f state \<Rightarrow> 'f state" where
  "ir_branch i s =
     (let currentRelay1 = getRelay1State s;
          currentRelay2 = getRelay2State s;
          s1 = (if isConnected (wifi_ir i) s
                then snd (postRelayState (post_relay_code i) currentRelay1 currentRelay2 s)
                else s)
      in s1\<lparr>previousRelay1State := currentRelay1, previousRelay2State := currentRelay2\<rparr>)"

text \<open>
  The call \<open>irHandler.update()\<close> itself (line 136): the handler leaves the relay outputs as
  it pleases and reports whether it changed one.
\<close>

definition ir_poll :: "'f tick \<Rightarrow> 'f state \<Rightarrow> bool \<times> 'f state" where
  "ir_poll i s =
     (case irHandler_update i (relay1 s, relay2 s) of
        (fired, r1, r2) \<Rightarrow> (fired, emit (IrUpdate fired) (s\<lparr>relay1 := r1, relay2 := r2\<rparr>)))"

definition loop_ir :: "'f tick \<Rightarrow> 'f state \<Rightarrow> 'f state" where
  "loop_ir i s =
     (case ir_poll i s of (fired, s1) \<Rightarrow> if fired then ir_branch i s1 else s1)"

text \<open>Lines 154-156.\<close>

definition loop_sensors :: "'f state \<Rightarrow> 'f state" where
  "loop_sensors s = emit (SensorUpdate 3) (emit (SensorUpdate 2) (emit (SensorUpdate 1) s))"

text \<open>The display block (lines 159-198).\<close>

definition display_due :: "'f tick \<Rightarrow> 'f state \<Rightarrow> bool" where
  "display_due i s = (printPeriod \<le> ms_print i - previousMillis s)"

definition loop_display :: "('f::{plus,times}) tick \<Rightarrow> 'f state \<Rightarrow> 'f state" where
  "loop_display i s =
     (if display_due i s then
        (let s1 = s\<lparr>previousMillis := ms_print_set i\<rparr>;
             s2 = (emit (GetCurrent 1) s1)\<lparr>lastCurrent1 := cur1 i\<rparr>;
             s3 = (emit (GetCurrent 2) s2)\<lparr>lastCurrent2 := cur2 i\<rparr>;
             s4 = (emit (GetCurrent 3) s3)\<lparr>lastCurrent3 := cur3 i\<rparr>;
             s5 = (emit GetRmsVoltage s4)\<lparr>lastVoltage := volt i\<rparr>;
             s6 = s5\<lparr>lastTotalCurrent := lastCurrent1 s5 + lastCurrent2 s5\<rparr>;
             s7 = s6\<lparr>lastPower1 := lastVoltage s6 * lastCurrent1 s6\<rparr>;
             s8 = s7\<lparr>lastPower2 := lastVoltage s7 * lastCurrent2 s7\<rparr>;
             s9 = s8\<lparr>lastTotalPower := lastPower1 s8 + lastPower2 s8\<rparr>
         in emit (ShowCurrents (lastCurrent1 s9) (lastCurrent2 s9) (lastTotalCurrent s9)) s9)
      else s)"

text \<open>The telemetry block (lines 201-219).\<close>

definition telemetry_due :: "'f tick \<Rightarrow> 'f state \<Rightarrow> bool" where
  "telemetry_due i s = (webSendPeriod \<le> ms_web i - previousWebMillis s)"

definition loop_telemetry :: "'f tick \<Rightarrow> 'f state \<Rightarrow> 'f state" where
  "loop_telemetry i s =
     (if telemetry_due i s then
        (let s1 = s\<lparr>previousWebMillis := ms_web_set i\<rparr> in
         if isConnected (wifi_web i) s1 then
           snd (sendSensorData (post_data_code i)
                  (lastVoltage s1) (lastCurrent1 s1) (lastCurrent2 s1) (lastCurrent3 s1)
                  (lastTotalCurrent s1) (lastPower1 s1) (lastPower2 s1) (lastTotalPower s1) s1)
         else s1)
      else s)"

text \<open>The relay poll block (lines 222-243).\<close>

definition poll_due :: "'f tick \<Rightarrow> 'f state \<Rightarrow> bool" where
  "poll_due i s = (relayPollPeriod \<le> ms_poll i - previousRelayPoll s)"

definition loop_poll :: "'f tick \<Rightarrow> 'f state \<Rightarrow> 'f state" where
  "loop_poll i s =
     (if poll_due i s then
        (let s1 = s\<lparr>previousRelayPoll := ms_poll_set i\<rparr> in
         if isConnected (wifi_poll i) s1 then
           (let relay1 = getRelay1State s1;
                relay2 = getRelay2State s1
            in case getRelayState (get_code i) (get_body i) relay1 relay2 s1 of
                 ((changed, relay1', relay2'), s2) \<Rightarrow>
                   if changed then
                     (let s3 = setRelay1 relay1' s2;
                          s4 = setRelay2 relay2' s3
                      in s4\<lparr>previousRelay1State := relay1', previousRelay2State := relay2'\<rparr>)
                   else s2)
         else s1)
      else s)"

text \<open>\<open>loop()\<close> (lines 130-244).\<close>

definition loop :: "('f::{plus,times}) tick \<Rightarrow> 'f state \<Rightarrow> 'f state" where
  "loop i s =
     loop_poll i (loop_telemetry i (loop_display i (loop_sensors (loop_ir i (maintain i s)))))"

text \<open>
  The events that a step adds to the trace, and those of one whole iteration of the loop.
\<close>

definition emitted :: "('f state \<Rightarrow> 'f state) \<Rightarrow> 'f state \<Rightarrow> 'f event list" where
  "emitted f s = drop (length (trace s)) (trace (f s))"

definition tick_trace :: "('f::{plus,times}) tick \<Rightarrow> 'f state \<Rightarrow> 'f event list" where
  "tick_trace i s = emitted (loop i) s"

text \<open>The state at each place of the iteration: before the IR check, before the sensor
  updates, before the display block, before the telemetry block, before the poll block.\<close>

definition at_ir :: "'f tick \<Rightarrow> 'f state \<Rightarrow> 'f state" where
  "at_ir i s = maintain i s"

definition at_sensors :: "'f tick \<Rightarrow> 'f state \<Rightarrow> 'f state" where
  "at_sensors i s = loop_ir i (at_ir i s)"

definition at_display :: "'f tick \<Rightarrow> 'f state \<Rightarrow> 'f state" where
  "at_display i s = loop_sensors (at_sensors i s)"

definition at_telemetry :: "('f::{plus,times}) tick \<Rightarrow> 'f state \<Rightarrow> 'f state" where
  "at_telemetry i s = loop_display i (at_display i s)"

definition at_poll :: "('f::{plus,times}) tick \<Rightarrow> 'f state \<Rightarrow> 'f state" where
  "at_poll i s = loop_telemetry i (at_telemetry i s)"

text \<open>
  What the poll block's call of \<open>getRelayState\<close> hands back: the return value and the
  two reference parameters \<open>relay1\<close>, \<open>relay2\<close> (lines 227-231).
\<close>

definition poll_result :: "'f tick \<Rightarrow> 'f state \<Rightarrow> bool \<times> bool \<times> bool" where
  "poll_result i s =
     fst (getRelayState (get_code i) (get_body i) (getRelay1State s) (getRelay2State s)
            (s\<lparr>previousRelayPoll := ms_poll_set i\<rparr>))"

subsection \<open>Start-up\<close>

text \<open>
  The initial values of the globals and of the \<open>WebClient\<close> members, with the relay outputs
  as \<open>pinConfig.begin()\<close> leaves them.
\<close>

definition boot_state :: "boot \<Rightarrow> ('f::zero) state" where
  "boot_state b =
     \<lparr>connected = False, lastReconnectAttempt = 0,
      relay1 = boot_relay1 b, relay2 = boot_relay2 b,
      previousMillis = 0, previousWebMillis = 0, previousRelayPoll = 0,
      lastVoltage = 0, lastCurrent1 = 0, lastCurrent2 = 0, lastCurrent3 = 0,
      lastTotalCurrent = 0, lastPower1 = 0, lastPower2 = 0, lastTotalPower = 0,
      previousRelay1State = False, previousRelay2State = False,
      initialSyncDone = False, trace = []\<rparr>"

text \<open>
  \<open>setup()\<close> (lines 61-127), as far as it touches the state above: \<open>webClient.begin()\<close>
  and the initial relay state sync.
\<close>

definition setup_main :: "boot \<Rightarrow> ('f::zero) state" where
  "setup_main b =
     (let s = webClient_begin (boot_wifi_status b) (boot_state b) in
      if isConnected (boot_wifi b) s then
        (let s1 = s\<lparr>previousRelay1State := getRelay1State s\<rparr>;
             s2 = s1\<lparr>previousRelay2State := getRelay2State s1\<rparr>;
             s3 = snd (postRelayState (boot_post_code b)
                         (previousRelay1State s2) (previousRelay2State s2) s2)
         in s3\<lparr>initialSyncDone := True\<rparr>)
      else s)"

text \<open>
  The Arduino core calls \<open>loop()\<close> again and again; \<open>run\<close> is any finite number of
  iterations, one record of inputs each.
\<close>

fun run :: "('f::{plus,times}) tick list \<Rightarrow> 'f state \<Rightarrow> 'f state" where
  "run [] s = s"
| "run (i # ticks) s = run ticks (loop i s)"

subsection \<open>Observations\<close>

text \<open>The relay outputs, the eight snapshot variables, and the three timestamps.\<close>

definition relays :: "'f state \<Rightarrow> bool \<times> bool" where
  "relays s = (relay1 s, relay2 s)"

definition snapshot :: "'f state \<Rightarrow> 'f \<times> 'f \<times> 'f \<times> 'f \<times> 'f \<times> 'f \<times> 'f \<times> 'f" where
  "snapshot s = (lastVoltage s, lastCurrent1 s, lastCurrent2 s, lastCurrent3 s,
                 lastTotalCurrent s, lastPower1 s, lastPower2 s, lastTotalPower s)"

definition timers :: "'f state \<Rightarrow> ulong \<times> ulong \<times> ulong" where
  "timers s = (previousMillis s, previousWebMillis s, previousRelayPoll s)"

text \<open>The telemetry request that carries a given snapshot.\<close>

definition report :: "'f \<times> 'f \<times> 'f \<times> 'f \<times> 'f \<times> 'f \<times> 'f \<times> 'f \<Rightarrow> 'f event" where
  "report x = (case x of (v, c1, c2, c3, tc, p1, p2, tp) \<Rightarrow> HttpPostData v c1 c2 c3 tc p1 p2 tp)"

text \<open>Kinds of events.\<close>

fun is_relay_write :: "'f event \<Rightarrow> bool" where
  "is_relay_write (SetRelay1 b) = True"
| "is_relay_write (SetRelay2 b) = True"
| "is_relay_write e = False"

fun is_relay_push :: "'f event \<Rightarrow> bool" where
  "is_relay_push (HttpPostRelay a b) = True"
| "is_relay_push e = False"

fun is_report :: "'f event \<Rightarrow> bool" where
  "is_report (HttpPostData v c1 c2 c3 tc p1 p2 tp) = True"
| "is_report e = False"

fun is_http :: "'f event \<Rightarrow> bool" where
  "is_http (HttpPostRelay a b) = True"
| "is_http (HttpPostData v c1 c2 c3 tc p1 p2 tp) = True"
| "is_http HttpGetRelay = True"
| "is_http e = False"

fun is_drain :: "'f event \<Rightarrow> bool" where
  "is_drain (GetCurrent n) = True"
| "is_drain GetRmsVoltage = True"
| "is_drain e = False"

text \<open>
  The place of an event in the order that the specification gives for one iteration:
  0 connectivity maintenance, 1 the IR check and its push, 2 the sampler updates,
  3 the display refresh, 4 the telemetry push, 5 the relay poll.
\<close>

fun phase_of :: "'f event \<Rightarrow> nat" where
  "phase_of Maintain = 0"
| "phase_of WifiReconnect = 0"
| "phase_of (IrUpdate b) = 1"
| "phase_of (HttpPostRelay a b) = 1"
| "phase_of (SensorUpdate n) = 2"
| "phase_of (GetCurrent n) = 3"
| "phase_of GetRmsVoltage = 3"
| "phase_of (ShowCurrents a b c) = 3"
| "phase_of (HttpPostData v c1 c2 c3 tc p1 p2 tp) = 4"
| "phase_of HttpGetRelay = 5"
| "phase_of (SetRelay1 b) = 5"
| "phase_of (SetRelay2 b) = 5"

text \<open>
  The snapshot after start-up, and the part of a trace that lies before the first read of a
  sensor, that is, before the first display refresh.
\<close>

definition zero_snapshot :: "('f::zero) \<times> 'f \<times> 'f \<times> 'f \<times> 'f \<times> 'f \<times> 'f \<times> 'f" where
  "zero_snapshot = (0, 0, 0, 0, 0, 0, 0, 0)"

definition before_refresh :: "'f event list \<Rightarrow> 'f event list" where
  "before_refresh tr = takeWhile (\<lambda>e. \<not> is_drain e) tr"

text \<open>
  A state in which, as long as no sensor has been read, the snapshot is still all 0 and
  every telemetry request sent so far carried eight zeros.
\<close>

definition unrefreshed_ok :: "('f::zero) state \<Rightarrow> bool" where
  "unrefreshed_ok s =
     ((filter is_drain (trace s) = [] \<longrightarrow> snapshot s = zero_snapshot) \<and>
      (\<forall>e\<in>set (before_refresh (trace s)). is_report e \<longrightarrow> e = report zero_snapshot))"

text \<open>
  A telemetry request whose totals are those of channels 1 and 2:
  total_current = current1 + current2, power1 = voltage * current1,
  power2 = voltage * current2, total_power = power1 + power2.
\<close>

fun report_ok :: "('f::{plus,times}) event \<Rightarrow> bool" where
  "report_ok (HttpPostData v c1 c2 c3 tc p1 p2 tp) =
     (tc = c1 + c2 \<and> p1 = v * c1 \<and> p2 = v * c2 \<and> tp = p1 + p2)"
| "report_ok e = True"

subsection \<open>Example inputs\<close>

text \<open>
  Concrete states and inputs, with readings in \<open>int\<close>. \<open>ex_state\<close> is connected with
  both relays off. \<open>ex_tick\<close> is an iteration at 5000 ms in which the display and the poll
  are due and the server answers relay1 = on, relay2 = off; \<open>ex_tick2\<close> is the next poll,
  at 9000 ms, with the same answer. In \<open>ex_tick_ir\<close> the IR handler switches relay 2 on and
  the poll's body does not parse. \<open>ex_boot\<close> is a start-up whose WiFi answers from the
  fourth status call on; \<open>ex_tick_early\<close> is an iteration in which the telemetry is due
  and the display is not, \<open>ex_tick_late\<close> one in which both are due.
\<close>

definition ex_state :: "int state" where
  "ex_state =
     \<lparr>connected = True, lastReconnectAttempt = 0, relay1 = False, relay2 = False,
      previousMillis = 0, previousWebMillis = 0, previousRelayPoll = 0,
      lastVoltage = 0, lastCurrent1 = 0, lastCurrent2 = 0, lastCurrent3 = 0,
      lastTotalCurrent = 0, lastPower1 = 0, lastPower2 = 0, lastTotalPower = 0,
      previousRelay1State = False, previousRelay2State = False,
      initialSyncDone = True, trace = []\<rparr>"

definition ex_state_off :: "int state" where
  "ex_state_off = ex_state\<lparr>connected := False\<rparr>"

definition ex_tick :: "int tick" where
  "ex_tick =
     \<lparr>wifi_maintain = True, ms_maintain = 5000, ms_maintain_set = 5000,
      irHandler_update = (\<lambda>r. (False, r)), wifi_ir = True, post_relay_code = 200,
      ms_print = 5000, ms_print_set = 5000, cur1 = 2, cur2 = 3, cur3 = 5, volt = 230,
      ms_web = 5000, ms_web_set = 5000, wifi_web = True, post_data_code = 200,
      ms_poll = 5000, ms_poll_set = 5000, wifi_poll = True, get_code = 200,
      get_body = Doc True False\<rparr>"

definition ex_tick2 :: "int tick" where
  "ex_tick2 =
     \<lparr>wifi_maintain = True, ms_maintain = 9000, ms_maintain_set = 9000,
      irHandler_update = (\<lambda>r. (False, r)), wifi_ir = True, post_relay_code = 200,
      ms_print = 5100, ms_print_set = 5100, cur1 = 2, cur2 = 3, cur3 = 5, volt = 230,
      ms_web = 9000, ms_web_set = 9000, wifi_web = True, post_data_code = 200,
      ms_poll = 9000, ms_poll_set = 9000, wifi_poll = True, get_code = 200,
      get_body = Doc True False\<rparr>"

definition ex_tick_ir :: "int tick" where
  "ex_tick_ir =
     \<lparr>wifi_maintain = True, ms_maintain = 100, ms_maintain_set = 100,
      irHandler_update = (\<lambda>r. (True, fst r, True)), wifi_ir = True, post_relay_code = 200,
      ms_print = 100, ms_print_set = 100, cur1 = 2, cur2 = 3, cur3 = 5, volt = 230,
      ms_web = 100, ms_web_set = 100, wifi_web = True, post_data_code = 200,
      ms_poll = 4000, ms_poll_set = 4000, wifi_poll = True, get_code = 200,
      get_body = ParseError\<rparr>"

definition ex_boot :: boot where
  "ex_boot = \<lparr>boot_relay1 = False, boot_relay2 = False, boot_wifi_status = (\<lambda>k. 3 \<le> k),
              boot_wifi = True, boot_post_code = 200\<rparr>"

definition ex_tick_early :: "int tick" where
  "ex_tick_early =
     \<lparr>wifi_maintain = True, ms_maintain = 1000, ms_maintain_set = 1000,
      irHandler_update = (\<lambda>r. (False, r)), wifi_ir = True, post_relay_code = 200,
      ms_print = 1000, ms_print_set = 1000, cur1 = 2, cur2 = 3, cur3 = 5, volt = 230,
      ms_web = 10000, ms_web_set = 10000, wifi_web = True, post_data_code = 200,
      ms_poll = 1000, ms_poll_set = 1000, wifi_poll = True, get_code = 200,
      get_body = Doc False False\<rparr>"

definition ex_tick_late :: "int tick" where
  "ex_tick_late = ex_tick_early\<lparr>ms_print := 12000, ms_web := 30000\<rparr>"

section \<open>Properties\<close>

subsection \<open>What each step does to the trace and what it leaves alone\<close>

lemma maintain_trace:
  "trace (maintain i s) = trace s @ Maintain #
     (if \<not> wifi_maintain i \<and> reconnectInterval \<le> ms_maintain i - lastReconnectAttempt s
      then [WifiReconnect] else [])"
  by (simp add: maintain_def emit_def Let_def)

lemma maintain_connected: "connected (maintain i s) = wifi_maintain i"
  by (auto simp add: maintain_def emit_def Let_def)

lemma maintain_frame:
  "relays (maintain i s) = relays s" "snapshot (maintain i s) = snapshot s"
  "timers (maintain i s) = timers s"
  by (simp_all add: maintain_def emit_def Let_def relays_def snapshot_def timers_def)

lemma postRelayState_trace:
  "trace (snd (postRelayState code a b s)) =
     trace s @ (if connected s then [HttpPostRelay a b] else [])"
  by (simp add: postRelayState_def emit_def Let_def)

lemma postRelayState_frame:
  "relays (snd (postRelayState code a b s)) = relays s"
  "snapshot (snd (postRelayState code a b s)) = snapshot s"
  "timers (snd (postRelayState code a b s)) = timers s"
  "connected (snd (postRelayState code a b s)) = connected s"
  by (simp_all add: postRelayState_def emit_def Let_def relays_def snapshot_def timers_def)

lemma ir_branch_trace:
  "trace (ir_branch i s) =
     trace s @ (if connected s \<and> wifi_ir i then [HttpPostRelay (relay1 s) (relay2 s)] else [])"
  by (simp add: ir_branch_def isConnected_def Let_def postRelayState_trace
        getRelay1State_def getRelay2State_def)

lemma ir_branch_frame:
  "relays (ir_branch i s) = relays s"
  "snapshot (ir_branch i s) = snapshot s"
  "timers (ir_branch i s) = timers s"
  "connected (ir_branch i s) = connected s"
  using postRelayState_frame [of "post_relay_code i" "relay1 s" "relay2 s" s]
  by (simp_all add: ir_branch_def Let_def relays_def snapshot_def timers_def
        getRelay1State_def getRelay2State_def)

lemma ir_poll_eq:
  "ir_poll i s =
     (fst (irHandler_update i (relay1 s, relay2 s)),
      emit (IrUpdate (fst (irHandler_update i (relay1 s, relay2 s))))
        (s\<lparr>relay1 := fst (snd (irHandler_update i (relay1 s, relay2 s))),
           relay2 := snd (snd (irHandler_update i (relay1 s, relay2 s)))\<rparr>))"
  by (simp add: ir_poll_def split: prod.splits)

lemma ir_poll_frame:
  "trace (snd (ir_poll i s)) = trace s @ [IrUpdate (fst (irHandler_update i (relay1 s, relay2 s)))]"
  "relays (snd (ir_poll i s)) = snd (irHandler_update i (relay1 s, relay2 s))"
  "snapshot (snd (ir_poll i s)) = snapshot s"
  "timers (snd (ir_poll i s)) = timers s"
  "connected (snd (ir_poll i s)) = connected s"
  by (simp_all add: ir_poll_eq emit_def relays_def snapshot_def timers_def)

lemma loop_ir_eq:
  "loop_ir i s = (if fst (ir_poll i s) then ir_branch i (snd (ir_poll i s)) else snd (ir_poll i s))"
  by (simp add: loop_ir_def split: prod.splits)

lemma loop_ir_trace:
  "trace (loop_ir i s) =
     trace s @ IrUpdate (fst (irHandler_update i (relay1 s, relay2 s))) #
       (if fst (irHandler_update i (relay1 s, relay2 s)) \<and> connected s \<and> wifi_ir i
        then [HttpPostRelay (fst (snd (irHandler_update i (relay1 s, relay2 s))))
                            (snd (snd (irHandler_update i (relay1 s, relay2 s))))]
        else [])"
  by (simp add: loop_ir_eq ir_branch_trace ir_poll_eq emit_def)

lemma loop_ir_relays:
  "relays (loop_ir i s) = snd (irHandler_update i (relay1 s, relay2 s))"
  by (simp add: loop_ir_eq ir_branch_frame ir_poll_frame)

lemma loop_ir_frame:
  "snapshot (loop_ir i s) = snapshot s"
  "timers (loop_ir i s) = timers s"
  "connected (loop_ir i s) = connected s"
  by (simp_all add: loop_ir_eq ir_branch_frame ir_poll_frame)

lemma getRelayState_state:
  "snd (getRelayState code body a b s) = (if connected s then emit HttpGetRelay s else s)"
  by (simp add: getRelayState_def Let_def split: payload.splits)

lemma getRelayState_doc:
  "connected s \<Longrightarrow>
   fst (getRelayState 200 (Doc n1 n2) a b s) = (n1 \<noteq> a \<or> n2 \<noteq> b, n1, n2)"
  by (auto simp add: getRelayState_def Let_def)

lemma getRelayState_fail:
  "\<not> connected s \<or> code \<noteq> 200 \<or> body = ParseError \<Longrightarrow>
   fst (getRelayState code body a b s) = (False, a, b)"
  by (auto simp add: getRelayState_def Let_def split: payload.splits)

lemma sendSensorData_state:
  "snd (sendSensorData code v c1 c2 c3 tc p1 p2 tp s) =
     (if connected s then emit (HttpPostData v c1 c2 c3 tc p1 p2 tp) s else s)"
  by (simp add: sendSensorData_def Let_def)

lemma loop_sensors_trace:
  "trace (loop_sensors s) = trace s @ [SensorUpdate 1, SensorUpdate 2, SensorUpdate 3]"
  by (simp add: loop_sensors_def emit_def)

lemma loop_sensors_frame:
  "relays (loop_sensors s) = relays s" "snapshot (loop_sensors s) = snapshot s"
  "timers (loop_sensors s) = timers s" "connected (loop_sensors s) = connected s"
  by (simp_all add: loop_sensors_def emit_def relays_def snapshot_def timers_def)

lemma loop_display_trace:
  "trace (loop_display i s) =
     trace s @ (if display_due i s
                then [GetCurrent 1, GetCurrent 2, GetCurrent 3, GetRmsVoltage,
                      ShowCurrents (cur1 i) (cur2 i) (cur1 i + cur2 i)]
                else [])"
  by (simp add: loop_display_def emit_def Let_def)

lemma loop_display_snapshot:
  "snapshot (loop_display i s) =
     (if display_due i s
      then (volt i, cur1 i, cur2 i, cur3 i, cur1 i + cur2 i,
            volt i * cur1 i, volt i * cur2 i, volt i * cur1 i + volt i * cur2 i)
      else snapshot s)"
  by (simp add: loop_display_def emit_def Let_def snapshot_def)

lemma loop_display_frame:
  "relays (loop_display i s) = relays s" 
  "connected (loop_display i s) = connected s"
  "previousWebMillis (loop_display i s) = previousWebMillis s"
  "previousRelayPoll (loop_display i s) = previousRelayPoll s"
  by (simp_all add: loop_display_def emit_def Let_def relays_def)

lemma loop_telemetry_trace:
  "trace (loop_telemetry i s) =
     trace s @ (if telemetry_due i s \<and> connected s \<and> wifi_web i
                then [HttpPostData (lastVoltage s) (lastCurrent1 s) (lastCurrent2 s)
                        (lastCurrent3 s) (lastTotalCurrent s) (lastPower1 s) (lastPower2 s)
                        (lastTotalPower s)]
                else [])"
  by (simp add: loop_telemetry_def isConnected_def sendSensorData_state emit_def Let_def)

lemma loop_telemetry_frame:
  "relays (loop_telemetry i s) = relays s" 
  "snapshot (loop_telemetry i s) = snapshot s"
  "connected (loop_telemetry i s) = connected s"
  "previousRelayPoll (loop_telemetry i s) = previousRelayPoll s"
  by (simp_all add: loop_telemetry_def isConnected_def sendSensorData_state emit_def Let_def
        relays_def snapshot_def)

lemma loop_poll_trace:
  "trace (loop_poll i s) =
     trace s @ (if poll_due i s \<and> connected s \<and> wifi_poll i
                then HttpGetRelay #
                       (if fst (poll_result i s)
                        then [SetRelay1 (fst (snd (poll_result i s))),
                              SetRelay2 (snd (snd (poll_result i s)))]
                        else [])
                else [])"
  by (simp add: loop_poll_def poll_result_def isConnected_def Let_def case_prod_beta
        getRelayState_state setRelay1_def setRelay2_def emit_def getRelay1State_def
        getRelay2State_def)

lemma loop_poll_frame:
  "snapshot (loop_poll i s) = snapshot s"
  "connected (loop_poll i s) = connected s"
  by (simp_all add: loop_poll_def isConnected_def Let_def case_prod_beta
        getRelayState_state setRelay1_def setRelay2_def emit_def snapshot_def)

lemma loop_poll_relays:
  "relays (loop_poll i s) =
     (if poll_due i s \<and> connected s \<and> wifi_poll i \<and> fst (poll_result i s)
      then snd (poll_result i s) else relays s)"
  by (auto simp add: loop_poll_def poll_result_def isConnected_def Let_def case_prod_beta
        getRelayState_state setRelay1_def setRelay2_def emit_def relays_def getRelay1State_def
        getRelay2State_def)

lemma loop_at_poll: "loop i s = loop_poll i (at_poll i s)"
  by (simp add: loop_def at_poll_def at_telemetry_def at_display_def at_sensors_def at_ir_def)

lemma timers_fields:
  "timers s' = timers s \<Longrightarrow> previousMillis s' = previousMillis s"
  "timers s' = timers s \<Longrightarrow> previousWebMillis s' = previousWebMillis s"
  "timers s' = timers s \<Longrightarrow> previousRelayPoll s' = previousRelayPoll s"
  by (simp_all add: timers_def)

lemma at_display_timers: "timers (at_display i s) = timers s"
  by (simp add: at_display_def at_sensors_def at_ir_def loop_sensors_frame loop_ir_frame
        maintain_frame)

lemma connected_at:
  "connected (at_ir i s) = wifi_maintain i"
  "connected (at_sensors i s) = wifi_maintain i"
  "connected (at_display i s) = wifi_maintain i"
  "connected (at_telemetry i s) = wifi_maintain i"
  "connected (at_poll i s) = wifi_maintain i"
  "connected (loop i s) = wifi_maintain i"
  by (simp_all add: loop_at_poll at_poll_def at_telemetry_def at_display_def at_sensors_def
        at_ir_def loop_poll_frame loop_telemetry_frame loop_display_frame loop_sensors_frame
        loop_ir_frame maintain_connected)

lemma relays_at:
  "relays (at_ir i s) = relays s"
  "relays (at_sensors i s) = snd (irHandler_update i (relays s))"
  "relays (at_display i s) = snd (irHandler_update i (relays s))"
  "relays (at_telemetry i s) = snd (irHandler_update i (relays s))"
  "relays (at_poll i s) = snd (irHandler_update i (relays s))"
proof -
  show a: "relays (at_ir i s) = relays s"
    by (simp add: at_ir_def maintain_frame)
  have "relays (loop_ir i (at_ir i s)) = snd (irHandler_update i (relays (at_ir i s)))"
    unfolding loop_ir_relays by (simp add: relays_def)
  then show b: "relays (at_sensors i s) = snd (irHandler_update i (relays s))"
    by (simp add: at_sensors_def a)
  then show "relays (at_display i s) = snd (irHandler_update i (relays s))"
    "relays (at_telemetry i s) = snd (irHandler_update i (relays s))"
    "relays (at_poll i s) = snd (irHandler_update i (relays s))"
    by (simp_all add: at_poll_def at_telemetry_def at_display_def loop_telemetry_frame
          loop_display_frame loop_sensors_frame)
qed

lemma snapshot_at:
  "snapshot (at_ir i s) = snapshot s"
  "snapshot (at_sensors i s) = snapshot s"
  "snapshot (at_display i s) = snapshot s"
  by (simp_all add: at_display_def at_sensors_def at_ir_def loop_sensors_frame loop_ir_frame
        maintain_frame)

lemma due_at:
  "display_due i (at_display i s) = display_due i s"
  "telemetry_due i (at_telemetry i s) = telemetry_due i s"
  "poll_due i (at_poll i s) = poll_due i s"
  using at_display_timers [of i s]
  by (simp_all add: display_due_def telemetry_due_def poll_due_def at_poll_def at_telemetry_def
        loop_telemetry_frame loop_display_frame timers_def)

lemma snapshot_loop:
  "snapshot (loop i s) =
     (if display_due i s
      then (volt i, cur1 i, cur2 i, cur3 i, cur1 i + cur2 i,
            volt i * cur1 i, volt i * cur2 i, volt i * cur1 i + volt i * cur2 i)
      else snapshot s)"
  "snapshot (at_telemetry i s) = snapshot (loop i s)"
  "snapshot (at_poll i s) = snapshot (loop i s)"
  by (simp_all add: loop_at_poll loop_poll_frame at_poll_def loop_telemetry_frame
        at_telemetry_def loop_display_snapshot due_at snapshot_at)

lemma report_snapshot:
  "HttpPostData (lastVoltage s) (lastCurrent1 s) (lastCurrent2 s) (lastCurrent3 s)
     (lastTotalCurrent s) (lastPower1 s) (lastPower2 s) (lastTotalPower s) = report (snapshot s)"
  by (simp add: report_def snapshot_def)

lemma poll_result_eq:
  "poll_result i s =
     (if connected s \<and> get_code i = 200
      then (case get_body i of
              Doc n1 n2 \<Rightarrow> (n1 \<noteq> relay1 s \<or> n2 \<noteq> relay2 s, n1, n2)
            | ParseError \<Rightarrow> (False, relay1 s, relay2 s))
      else (False, relay1 s, relay2 s))"
  by (auto simp add: poll_result_def getRelayState_def Let_def getRelay1State_def
        getRelay2State_def split: payload.splits)

lemma trace_loop:
  "trace (loop i s) =
     trace s @
     (Maintain #
        (if \<not> wifi_maintain i \<and> reconnectInterval \<le> ms_maintain i - lastReconnectAttempt s
         then [WifiReconnect] else [])) @
     (IrUpdate (fst (irHandler_update i (relays s))) #
        (if fst (irHandler_update i (relays s)) \<and> wifi_maintain i \<and> wifi_ir i
         then [HttpPostRelay (fst (snd (irHandler_update i (relays s))))
                             (snd (snd (irHandler_update i (relays s))))]
         else [])) @
     [SensorUpdate 1, SensorUpdate 2, SensorUpdate 3] @
     (if display_due i s
      then [GetCurrent 1, GetCurrent 2, GetCurrent 3, GetRmsVoltage,
            ShowCurrents (cur1 i) (cur2 i) (cur1 i + cur2 i)]
      else []) @
     (if telemetry_due i s \<and> wifi_maintain i \<and> wifi_web i
      then [report (snapshot (loop i s))] else []) @
     (if poll_due i s \<and> wifi_maintain i \<and> wifi_poll i
      then HttpGetRelay #
             (if fst (poll_result i (at_poll i s))
              then [SetRelay1 (fst (snd (poll_result i (at_poll i s)))),
                    SetRelay2 (snd (snd (poll_result i (at_poll i s))))]
              else [])
      else [])"
proof -
  have 1: "trace (at_ir i s) = trace s @
     (Maintain #
        (if \<not> wifi_maintain i \<and> reconnectInterval \<le> ms_maintain i - lastReconnectAttempt s
         then [WifiReconnect] else []))"
    by (simp add: at_ir_def maintain_trace)
  have r: "(relay1 (at_ir i s), relay2 (at_ir i s)) = relays s"
    using relays_at(1) [of i s] by (simp add: relays_def)
  have 2: "trace (at_sensors i s) = trace (at_ir i s) @
     (IrUpdate (fst (irHandler_update i (relays s))) #
        (if fst (irHandler_update i (relays s)) \<and> wifi_maintain i \<and> wifi_ir i
         then [HttpPostRelay (fst (snd (irHandler_update i (relays s))))
                             (snd (snd (irHandler_update i (relays s))))]
         else []))"
    unfolding at_sensors_def loop_ir_trace r by (simp add: connected_at)
  have 3: "trace (at_display i s) = trace (at_sensors i s) @
      [SensorUpdate 1, SensorUpdate 2, SensorUpdate 3]"
    by (simp add: at_display_def loop_sensors_trace)
  have 4: "trace (at_telemetry i s) = trace (at_display i s) @
     (if display_due i s
      then [GetCurrent 1, GetCurrent 2, GetCurrent 3, GetRmsVoltage,
            ShowCurrents (cur1 i) (cur2 i) (cur1 i + cur2 i)]
      else [])"
    unfolding at_telemetry_def loop_display_trace by (simp add: due_at)
  have 5: "trace (at_poll i s) = trace (at_telemetry i s) @
     (if telemetry_due i s \<and> wifi_maintain i \<and> wifi_web i
      then [report (snapshot (loop i s))] else [])"
    unfolding at_poll_def loop_telemetry_trace report_snapshot
    by (simp add: due_at connected_at snapshot_loop)
  have 6: "trace (loop i s) = trace (at_poll i s) @
     (if poll_due i s \<and> wifi_maintain i \<and> wifi_poll i
      then HttpGetRelay #
             (if fst (poll_result i (at_poll i s))
              then [SetRelay1 (fst (snd (poll_result i (at_poll i s)))),
                    SetRelay2 (snd (snd (poll_result i (at_poll i s))))]
              else [])
      else [])"
    unfolding loop_at_poll loop_poll_trace by (simp add: due_at connected_at)
  show ?thesis
    unfolding 6 5 4 3 2 1 by simp
qed

lemmas step_defs =
  loop_def maintain_def loop_ir_def ir_poll_def ir_branch_def loop_sensors_def
  loop_display_def loop_telemetry_def loop_poll_def isConnected_def
  display_due_def telemetry_due_def poll_due_def
  sendSensorData_def postRelayState_def getRelayState_def
  getRelay1State_def getRelay2State_def setRelay1_def setRelay2_def emit_def
  printPeriod_def webSendPeriod_def relayPollPeriod_def reconnectInterval_def
  at_ir_def at_sensors_def at_display_def at_telemetry_def at_poll_def poll_result_def
  tick_trace_def emitted_def relays_def snapshot_def Let_def

lemma tick_trace_eq:
  "tick_trace i s =
     (Maintain #
        (if \<not> wifi_maintain i \<and> reconnectInterval \<le> ms_maintain i - lastReconnectAttempt s
         then [WifiReconnect] else [])) @
     (IrUpdate (fst (irHandler_update i (relays s))) #
        (if fst (irHandler_update i (relays s)) \<and> wifi_maintain i \<and> wifi_ir i
         then [HttpPostRelay (fst (snd (irHandler_update i (relays s))))
                             (snd (snd (irHandler_update i (relays s))))]
         else [])) @
     [SensorUpdate 1, SensorUpdate 2, SensorUpdate 3] @
     (if display_due i s
      then [GetCurrent 1, GetCurrent 2, GetCurrent 3, GetRmsVoltage,
            ShowCurrents (cur1 i) (cur2 i) (cur1 i + cur2 i)]
      else []) @
     (if telemetry_due i s \<and> wifi_maintain i \<and> wifi_web i
      then [report (snapshot (loop i s))] else []) @
     (if poll_due i s \<and> wifi_maintain i \<and> wifi_poll i
      then HttpGetRelay #
             (if fst (poll_result i (at_poll i s))
              then [SetRelay1 (fst (snd (poll_result i (at_poll i s)))),
                    SetRelay2 (snd (snd (poll_result i (at_poll i s))))]
              else [])
      else [])"
  by (simp add: tick_trace_def emitted_def trace_loop)

lemma report_kind [simp]:
  "is_relay_write (report x) = False" "is_relay_push (report x) = False"
  "is_report (report x) = True" "is_http (report x) = True" "is_drain (report x) = False"
  "phase_of (report x) = 4"
  by (simp_all add: report_def split: prod.splits)

lemma relay_writes_eq:
  "filter is_relay_write (tick_trace i s) =
     (if poll_due i s \<and> wifi_maintain i \<and> wifi_poll i \<and> fst (poll_result i (at_poll i s))
      then [SetRelay1 (fst (snd (poll_result i (at_poll i s)))),
            SetRelay2 (snd (snd (poll_result i (at_poll i s))))]
      else [])"
  by (simp add: tick_trace_eq)

text \<open>
  C1. A poll that receives status 200 and a document reports a change exactly when one of
  the two fetched fields differs from the local value passed in; the loop writes relay
  outputs in an iteration exactly when the poll block ran its call of getRelayState and the
  call returned true; a poll whose fetched values equal the local relay outputs writes
  nothing.
\<close>

theorem poll_changed_iff_differs:
  "(connected s \<longrightarrow>
      fst (fst (getRelayState 200 (Doc n1 n2) r1 r2 s)) = (n1 \<noteq> r1 \<or> n2 \<noteq> r2)) \<and>
   (filter is_relay_write (tick_trace i t) \<noteq> []) =
      (poll_due i (at_poll i t) \<and> isConnected (wifi_poll i) (at_poll i t) \<and>
       fst (poll_result i (at_poll i t))) \<and>
   (get_body i = Doc (relay1 (at_poll i t)) (relay2 (at_poll i t)) \<longrightarrow>
      filter is_relay_write (tick_trace i t) = [])"
proof (intro conjI impI)
  assume "connected s"
  then show "fst (fst (getRelayState 200 (Doc n1 n2) r1 r2 s)) = (n1 \<noteq> r1 \<or> n2 \<noteq> r2)"
    by (simp add: getRelayState_doc)
next
  show "(filter is_relay_write (tick_trace i t) \<noteq> []) =
      (poll_due i (at_poll i t) \<and> isConnected (wifi_poll i) (at_poll i t) \<and>
       fst (poll_result i (at_poll i t)))"
    by (simp add: relay_writes_eq due_at isConnected_def connected_at)
next
  assume "get_body i = Doc (relay1 (at_poll i t)) (relay2 (at_poll i t))"
  then have "\<not> fst (poll_result i (at_poll i t))"
    by (simp add: poll_result_eq)
  then show "filter is_relay_write (tick_trace i t) = []"
    by (simp add: relay_writes_eq)
qed

theorem poll_changed_iff_differs_witness:
  "connected ex_state \<and>
   fst (fst (getRelayState 200 (Doc True False) False False ex_state)) \<and>
   filter is_relay_write (tick_trace ex_tick ex_state) = [SetRelay1 True, SetRelay2 False] \<and>
   relays (loop ex_tick ex_state) = (True, False) \<and>
   get_body ex_tick2 = Doc (relay1 (at_poll ex_tick2 (loop ex_tick ex_state)))
                           (relay2 (at_poll ex_tick2 (loop ex_tick ex_state))) \<and>
   poll_due ex_tick2 (at_poll ex_tick2 (loop ex_tick ex_state)) \<and>
   filter is_http (tick_trace ex_tick2 (loop ex_tick ex_state)) = [HttpGetRelay] \<and>
   filter is_relay_write (tick_trace ex_tick2 (loop ex_tick ex_state)) = []"
  using poll_changed_iff_differs [of ex_state True False False False ex_tick ex_state]
    poll_changed_iff_differs [of ex_state True False False False ex_tick2 "loop ex_tick ex_state"]
  by (simp add: step_defs ex_tick_def ex_tick2_def ex_state_def)

lemma seg_maintain:
  "emitted (maintain i) s =
     Maintain #
       (if \<not> wifi_maintain i \<and> reconnectInterval \<le> ms_maintain i - lastReconnectAttempt s
        then [WifiReconnect] else [])"
  by (simp add: emitted_def maintain_trace)

lemma seg_ir:
  "emitted (loop_ir i) s =
     IrUpdate (fst (irHandler_update i (relays s))) #
       (if fst (irHandler_update i (relays s)) \<and> connected s \<and> wifi_ir i
        then [HttpPostRelay (fst (snd (irHandler_update i (relays s))))
                            (snd (snd (irHandler_update i (relays s))))]
        else [])"
  by (simp add: emitted_def loop_ir_trace relays_def)

lemma seg_sensors:
  "emitted loop_sensors s = [SensorUpdate 1, SensorUpdate 2, SensorUpdate 3]"
  by (simp add: emitted_def loop_sensors_trace)

lemma seg_display:
  "emitted (loop_display i) s =
     (if display_due i s
      then [GetCurrent 1, GetCurrent 2, GetCurrent 3, GetRmsVoltage,
            ShowCurrents (cur1 i) (cur2 i) (cur1 i + cur2 i)]
      else [])"
  by (simp add: emitted_def loop_display_trace)

lemma seg_telemetry:
  "emitted (loop_telemetry i) s =
     (if telemetry_due i s \<and> connected s \<and> wifi_web i then [report (snapshot s)] else [])"
  by (simp add: emitted_def loop_telemetry_trace report_snapshot)

lemma seg_poll:
  "emitted (loop_poll i) s =
     (if poll_due i s \<and> connected s \<and> wifi_poll i
      then HttpGetRelay #
             (if fst (poll_result i s)
              then [SetRelay1 (fst (snd (poll_result i s))),
                    SetRelay2 (snd (snd (poll_result i s)))]
              else [])
      else [])"
  by (simp add: emitted_def loop_poll_trace)

lemma seg_phase:
  "\<forall>e\<in>set (emitted (maintain i) s). phase_of e = 0"
  "\<forall>e\<in>set (emitted (loop_ir i) s). phase_of e = 1"
  "\<forall>e\<in>set (emitted loop_sensors s). phase_of e = 2"
  "\<forall>e\<in>set (emitted (loop_display i) t). phase_of e = 3"
  "\<forall>e\<in>set (emitted (loop_telemetry i) t). phase_of e = 4"
  "\<forall>e\<in>set (emitted (loop_poll i) s). phase_of e = 5"
  by (auto simp add: seg_maintain seg_ir seg_sensors seg_display seg_telemetry seg_poll)

lemma tick_trace_split:
  "tick_trace i s =
     emitted (maintain i) s @ emitted (loop_ir i) (at_ir i s) @
     emitted loop_sensors (at_sensors i s) @ emitted (loop_display i) (at_display i s) @
     emitted (loop_telemetry i) (at_telemetry i s) @ emitted (loop_poll i) (at_poll i s)"
proof -
  have 1: "trace (at_ir i s) = trace s @ emitted (maintain i) s"
    by (simp add: at_ir_def seg_maintain maintain_trace)
  have 2: "trace (at_sensors i s) = trace (at_ir i s) @ emitted (loop_ir i) (at_ir i s)"
    by (simp add: at_sensors_def seg_ir loop_ir_trace relays_def)
  have 3: "trace (at_display i s) = trace (at_sensors i s) @ emitted loop_sensors (at_sensors i s)"
    by (simp add: at_display_def seg_sensors loop_sensors_trace)
  have 4: "trace (at_telemetry i s) =
      trace (at_display i s) @ emitted (loop_display i) (at_display i s)"
    by (simp add: at_telemetry_def seg_display loop_display_trace)
  have 5: "trace (at_poll i s) =
      trace (at_telemetry i s) @ emitted (loop_telemetry i) (at_telemetry i s)"
    by (simp add: at_poll_def seg_telemetry loop_telemetry_trace report_snapshot)
  have 6: "trace (loop i s) = trace (at_poll i s) @ emitted (loop_poll i) (at_poll i s)"
    by (simp add: loop_at_poll seg_poll loop_poll_trace)
  have "trace (loop i s) = trace s @
     emitted (maintain i) s @ emitted (loop_ir i) (at_ir i s) @
     emitted loop_sensors (at_sensors i s) @ emitted (loop_display i) (at_display i s) @
     emitted (loop_telemetry i) (at_telemetry i s) @ emitted (loop_poll i) (at_poll i s)"
    unfolding 6 5 4 3 2 1 by simp
  then show ?thesis
    by (simp add: tick_trace_def emitted_def [of "loop i"])
qed

lemma sorted_const: "\<forall>x\<in>set xs. f x = (k::nat) \<Longrightarrow> sorted (map f xs)"
  by (induction xs) auto

lemma filter_const:
  "\<forall>x\<in>set xs. f x = (k::nat) \<Longrightarrow> filter (\<lambda>e. f e = j) xs = (if j = k then xs else [])"
  by (induction xs) auto

lemma sorted_seg:
  fixes f :: "'a \<Rightarrow> nat"
  assumes "\<forall>x\<in>set xs. f x = k"
    and "sorted (map f ys) \<and> (\<forall>y\<in>set ys. k' \<le> f y)"
    and "k \<le> k'"
  shows "sorted (map f (xs @ ys)) \<and> (\<forall>y\<in>set (xs @ ys). k \<le> f y)"
  using assms by (auto simp add: sorted_append sorted_const [of xs f k])

lemma tick_sorted: "sorted (map phase_of (tick_trace i s))"
proof -
  have 6: "sorted (map phase_of (emitted (loop_poll i) (at_poll i s))) \<and>
      (\<forall>y\<in>set (emitted (loop_poll i) (at_poll i s)). 5 \<le> phase_of y)"
    using seg_phase(6) [of i "at_poll i s"] by (simp add: sorted_const [of _ phase_of 5])
  note 5 = sorted_seg [OF seg_phase(5) [of i "at_telemetry i s"] 6]
  note 4 = sorted_seg [OF seg_phase(4) [of i "at_display i s"] 5]
  note 3 = sorted_seg [OF seg_phase(3) [of "at_sensors i s"] 4]
  note 2 = sorted_seg [OF seg_phase(2) [of i "at_ir i s"] 3]
  note 1 = sorted_seg [OF seg_phase(1) [of i s] 2]
  show ?thesis
    using 1 by (simp add: tick_trace_split)
qed

lemma phase_filters:
  "filter (\<lambda>e. phase_of e = 0) (tick_trace i s) = emitted (maintain i) s"
  "filter (\<lambda>e. phase_of e = 1) (tick_trace i s) = emitted (loop_ir i) (at_ir i s)"
  "filter (\<lambda>e. phase_of e = 2) (tick_trace i s) = emitted loop_sensors (at_sensors i s)"
  "filter (\<lambda>e. phase_of e = 3) (tick_trace i s) = emitted (loop_display i) (at_display i s)"
  "filter (\<lambda>e. phase_of e = 4) (tick_trace i s) = emitted (loop_telemetry i) (at_telemetry i s)"
  "filter (\<lambda>e. phase_of e = 5) (tick_trace i s) = emitted (loop_poll i) (at_poll i s)"
  using seg_phase(1) [of i s, THEN filter_const] seg_phase(2) [of i "at_ir i s", THEN filter_const]
    seg_phase(3) [of "at_sensors i s", THEN filter_const]
    seg_phase(4) [of i "at_display i s", THEN filter_const]
    seg_phase(5) [of i "at_telemetry i s", THEN filter_const]
    seg_phase(6) [of i "at_poll i s", THEN filter_const]
  by (simp_all add: tick_trace_split)

text \<open>
  C2. In every iteration the events come in the order of the six phases: connectivity
  maintenance, the IR check and its push, the three sampler updates, the display refresh,
  the telemetry push, the relay poll. Each phase's events are exactly those of its step of
  the loop, run on the state the earlier steps left; maintenance, the IR check and the
  three sampler updates happen in every iteration, and the display refresh, the telemetry
  push and the relay poll happen only when their own period has elapsed.
\<close>

theorem tick_order:
  "sorted (map phase_of (tick_trace i s)) \<and>
   filter (\<lambda>e. phase_of e = 0) (tick_trace i s) = emitted (maintain i) s \<and>
   filter (\<lambda>e. phase_of e = 1) (tick_trace i s) = emitted (loop_ir i) (maintain i s) \<and>
   filter (\<lambda>e. phase_of e = 2) (tick_trace i s) =
     [SensorUpdate 1, SensorUpdate 2, SensorUpdate 3] \<and>
   filter (\<lambda>e. phase_of e = 3) (tick_trace i s) = emitted (loop_display i) (at_display i s) \<and>
   filter (\<lambda>e. phase_of e = 4) (tick_trace i s) =
     emitted (loop_telemetry i) (at_telemetry i s) \<and>
   filter (\<lambda>e. phase_of e = 5) (tick_trace i s) = emitted (loop_poll i) (at_poll i s) \<and>
   hd (emitted (maintain i) s) = Maintain \<and>
   hd (emitted (loop_ir i) (maintain i s)) = IrUpdate (fst (irHandler_update i (relays s))) \<and>
   (emitted (loop_display i) (at_display i s) \<noteq> []) = display_due i s \<and>
   (emitted (loop_telemetry i) (at_telemetry i s) \<noteq> []) =
     (telemetry_due i s \<and> isConnected (wifi_web i) (at_telemetry i s)) \<and>
   (emitted (loop_poll i) (at_poll i s) \<noteq> []) =
     (poll_due i s \<and> isConnected (wifi_poll i) (at_poll i s))"
proof -
  have a: "hd (emitted (maintain i) s) = Maintain"
    by (simp add: seg_maintain)
  have b: "emitted loop_sensors (at_sensors i s) =
     [SensorUpdate 1, SensorUpdate 2, SensorUpdate 3]"
    by (simp add: seg_sensors)
  have c: "hd (emitted (loop_ir i) (at_ir i s)) = IrUpdate (fst (irHandler_update i (relays s)))"
    by (simp add: seg_ir relays_at)
  have d: "(emitted (loop_display i) (at_display i s) \<noteq> []) = display_due i s"
    by (simp add: seg_display due_at)
  have e: "(emitted (loop_telemetry i) (at_telemetry i s) \<noteq> []) =
     (telemetry_due i s \<and> isConnected (wifi_web i) (at_telemetry i s))"
    by (simp add: seg_telemetry due_at isConnected_def)
  have f: "(emitted (loop_poll i) (at_poll i s) \<noteq> []) =
     (poll_due i s \<and> isConnected (wifi_poll i) (at_poll i s))"
    by (simp add: seg_poll due_at isConnected_def)
  show ?thesis
    using tick_sorted [of i s] phase_filters [of i s] a b c d e f
    unfolding at_ir_def by simp
qed

theorem tick_order_witness:
  "map phase_of (tick_trace ex_tick ex_state) = [0, 1, 2, 2, 2, 3, 3, 3, 3, 3, 5, 5, 5] \<and>
   filter (\<lambda>e. phase_of e = 0) (tick_trace ex_tick ex_state) = [Maintain] \<and>
   filter (\<lambda>e. phase_of e = 1) (tick_trace ex_tick ex_state) = [IrUpdate False] \<and>
   filter (\<lambda>e. phase_of e = 4) (tick_trace ex_tick ex_state) = [] \<and>
   filter (\<lambda>e. phase_of e = 5) (tick_trace ex_tick ex_state) =
     [HttpGetRelay, SetRelay1 True, SetRelay2 False] \<and>
   display_due ex_tick ex_state \<and> \<not> telemetry_due ex_tick ex_state \<and>
   poll_due ex_tick ex_state \<and>
   sorted (map phase_of (tick_trace ex_tick ex_state))"
  using tick_order [of ex_tick ex_state]
  by (simp add: step_defs ex_tick_def ex_state_def)

lemma relay_pushes_eq:
  "filter is_relay_push (tick_trace i s) =
     (if fst (irHandler_update i (relays s)) \<and> wifi_maintain i \<and> wifi_ir i
      then [HttpPostRelay (fst (snd (irHandler_update i (relays s))))
                          (snd (snd (irHandler_update i (relays s))))]
      else [])"
  by (simp add: tick_trace_eq)

lemma relay_push_phase: "is_relay_push e \<Longrightarrow> phase_of e = 1"
  by (cases e) simp_all

lemma ir_poll_at_ir:
  "fst (ir_poll i (maintain i s)) = fst (irHandler_update i (relays s))"
  "relays (snd (ir_poll i (maintain i s))) = snd (irHandler_update i (relays s))"
  "connected (snd (ir_poll i (maintain i s))) = wifi_maintain i"
  using maintain_frame(1) [of i s]
  by (simp_all add: ir_poll_frame maintain_connected) (simp_all add: ir_poll_eq relays_def)

text \<open>
  C3. In an iteration in which the IR handler reports a change, the loop sends the relay
  state to the server at most once (once if connected, not at all otherwise), with the relay
  outputs that the handler left, and the request comes before the poll's GET of the same
  iteration; in an iteration in which the handler reports no change there is no such
  request.
\<close>

theorem ir_push_once_before_poll:
  "filter is_relay_push (tick_trace i s) =
     (if fst (ir_poll i (maintain i s)) \<and>
         isConnected (wifi_ir i) (snd (ir_poll i (maintain i s)))
      then [HttpPostRelay (getRelay1State (snd (ir_poll i (maintain i s))))
                          (getRelay2State (snd (ir_poll i (maintain i s))))]
      else []) \<and>
   length (filter is_relay_push (tick_trace i s)) \<le> 1 \<and>
   (\<not> fst (ir_poll i (maintain i s)) \<longrightarrow> filter is_relay_push (tick_trace i s) = []) \<and>
   (\<forall>j k. j < length (tick_trace i s) \<and> k < length (tick_trace i s) \<and>
          is_relay_push (tick_trace i s ! j) \<and> tick_trace i s ! k = HttpGetRelay
          \<longrightarrow> j < k)"
proof (intro conjI allI impI)
  have r: "getRelay1State (snd (ir_poll i (maintain i s))) = fst (snd (irHandler_update i (relays s)))"
    "getRelay2State (snd (ir_poll i (maintain i s))) = snd (snd (irHandler_update i (relays s)))"
    using ir_poll_at_ir(2) [of i s]
    by (simp_all add: relays_def getRelay1State_def getRelay2State_def prod_eq_iff)
  show "filter is_relay_push (tick_trace i s) =
     (if fst (ir_poll i (maintain i s)) \<and>
         isConnected (wifi_ir i) (snd (ir_poll i (maintain i s)))
      then [HttpPostRelay (getRelay1State (snd (ir_poll i (maintain i s))))
                          (getRelay2State (snd (ir_poll i (maintain i s))))]
      else [])"
    unfolding r by (simp add: relay_pushes_eq ir_poll_at_ir isConnected_def)
  show "length (filter is_relay_push (tick_trace i s)) \<le> 1"
    by (simp add: relay_pushes_eq)
next
  assume "\<not> fst (ir_poll i (maintain i s))"
  then show "filter is_relay_push (tick_trace i s) = []"
    by (simp add: relay_pushes_eq ir_poll_at_ir)
next
  fix j k
  assume h: "j < length (tick_trace i s) \<and> k < length (tick_trace i s) \<and>
          is_relay_push (tick_trace i s ! j) \<and> tick_trace i s ! k = HttpGetRelay"
  show "j < k"
  proof (rule ccontr)
    assume "\<not> j < k"
    then have "k \<le> j" by simp
    with h tick_sorted [of i s]
    have "map phase_of (tick_trace i s) ! k \<le> map phase_of (tick_trace i s) ! j"
      by (simp add: sorted_nth_mono del: nth_map)
    with h show False
      by (simp add: relay_push_phase)
  qed
qed

theorem ir_push_once_before_poll_witness:
  "fst (ir_poll ex_tick_ir (maintain ex_tick_ir ex_state)) \<and>
   tick_trace ex_tick_ir ex_state =
     [Maintain, IrUpdate True, HttpPostRelay False True,
      SensorUpdate 1, SensorUpdate 2, SensorUpdate 3, HttpGetRelay] \<and>
   filter is_relay_push (tick_trace ex_tick_ir ex_state) = [HttpPostRelay False True] \<and>
   length (filter is_relay_push (tick_trace ex_tick_ir ex_state)) \<le> 1 \<and>
   \<not> fst (ir_poll ex_tick (maintain ex_tick ex_state)) \<and>
   filter is_relay_push (tick_trace ex_tick ex_state) = []"
proof -
  have t: "tick_trace ex_tick_ir ex_state =
     [Maintain, IrUpdate True, HttpPostRelay False True,
      SensorUpdate 1, SensorUpdate 2, SensorUpdate 3, HttpGetRelay]"
    by (simp add: step_defs ex_tick_ir_def ex_state_def)
  have f: "fst (ir_poll ex_tick_ir (maintain ex_tick_ir ex_state))"
    by (simp add: step_defs ex_tick_ir_def ex_state_def)
  have n: "\<not> fst (ir_poll ex_tick (maintain ex_tick ex_state))"
    by (simp add: step_defs ex_tick_def ex_state_def)
  note a = ir_push_once_before_poll [of ex_tick_ir ex_state]
  note b = ir_push_once_before_poll [of ex_tick ex_state]
  have l: "length (filter is_relay_push (tick_trace ex_tick_ir ex_state)) \<le> 1"
    using a by (rule conjunct2 [THEN conjunct1])
  have e: "filter is_relay_push (tick_trace ex_tick ex_state) = []"
    using b [THEN conjunct2, THEN conjunct2, THEN conjunct1] n by (rule mp)
  show ?thesis
    using t f n l e by simp
qed

lemma relays_loop:
  "relays (loop i s) =
     (if poll_due i s \<and> wifi_maintain i \<and> wifi_poll i \<and> fst (poll_result i (at_poll i s))
      then snd (poll_result i (at_poll i s)) else relays (at_poll i s))"
  by (simp add: loop_at_poll loop_poll_relays due_at connected_at)

text \<open>
  C4. When the GET returns status 200 and the body does not parse, getRelayState returns
  false and hands back both reference parameters as they were; an iteration of the loop
  whose poll body does not parse writes no relay output and ends with the relay outputs as
  the poll block found them.
\<close>

theorem parse_failure_is_no_change:
  "(connected s \<longrightarrow>
      getRelayState 200 ParseError r1 r2 s = ((False, r1, r2), emit HttpGetRelay s)) \<and>
   (get_body i = ParseError \<longrightarrow>
      \<not> fst (poll_result i (at_poll i t)) \<and>
      filter is_relay_write (tick_trace i t) = [] \<and>
      relays (loop i t) = relays (at_poll i t))"
proof (intro conjI impI)
  assume "connected s"
  then show "getRelayState 200 ParseError r1 r2 s = ((False, r1, r2), emit HttpGetRelay s)"
    by (simp add: getRelayState_def)
next
  assume p: "get_body i = ParseError"
  then show n: "\<not> fst (poll_result i (at_poll i t))"
    by (simp add: poll_result_eq)
  then show "filter is_relay_write (tick_trace i t) = []"
    by (simp add: relay_writes_eq)
  from n show "relays (loop i t) = relays (at_poll i t)"
    by (simp add: relays_loop)
qed

theorem parse_failure_is_no_change_witness:
  "connected ex_state \<and>
   getRelayState 200 ParseError True False ex_state =
     ((False, True, False), emit HttpGetRelay ex_state) \<and>
   get_body ex_tick_ir = ParseError \<and> get_code ex_tick_ir = 200 \<and>
   filter is_http (tick_trace ex_tick_ir ex_state) = [HttpPostRelay False True, HttpGetRelay] \<and>
   filter is_relay_write (tick_trace ex_tick_ir ex_state) = [] \<and>
   relays (loop ex_tick_ir ex_state) = (False, True)"
  using parse_failure_is_no_change [of ex_state True False ex_tick_ir ex_state]
  by (simp add: step_defs ex_tick_def ex_tick_ir_def ex_state_def)

lemma is_http_push: "is_relay_push e \<Longrightarrow> is_http e"
  by (cases e) simp_all

lemma http_eq:
  "filter is_http (tick_trace i s) =
     (if fst (irHandler_update i (relays s)) \<and> wifi_maintain i \<and> wifi_ir i
      then [HttpPostRelay (fst (snd (irHandler_update i (relays s))))
                          (snd (snd (irHandler_update i (relays s))))]
      else []) @
     (if telemetry_due i s \<and> wifi_maintain i \<and> wifi_web i
      then [report (snapshot (loop i s))] else []) @
     (if poll_due i s \<and> wifi_maintain i \<and> wifi_poll i then [HttpGetRelay] else [])"
  by (simp add: tick_trace_eq)

lemma reports_eq:
  "filter is_report (tick_trace i s) =
     (if telemetry_due i s \<and> wifi_maintain i \<and> wifi_web i
      then [report (snapshot (loop i s))] else [])"
  by (simp add: tick_trace_eq)

text \<open>
  C5. Pushing the relay state never writes a relay output, whatever the network does:
  postRelayState leaves the relay outputs as they are and emits no relay write, for every
  status code and whether connected or not; so does the body of the IR branch; and after
  the IR step of the loop the relay outputs are those the IR handler left.
\<close>

theorem push_leaves_relays:
  "relays (snd (postRelayState code a b s)) = relays s \<and>
   filter is_relay_write (emitted (\<lambda>s. snd (postRelayState code a b s)) s) = [] \<and>
   relays (ir_branch i s) = relays s \<and>
   filter is_relay_write (emitted (ir_branch i) s) = [] \<and>
   relays (loop_ir i (maintain i t)) = snd (irHandler_update i (relays t)) \<and>
   filter is_relay_write (emitted (loop_ir i) (maintain i t)) = []"
proof (intro conjI)
  show "relays (snd (postRelayState code a b s)) = relays s"
    by (simp add: postRelayState_frame)
  show "filter is_relay_write (emitted (\<lambda>s. snd (postRelayState code a b s)) s) = []"
    by (simp add: emitted_def postRelayState_trace)
  show "relays (ir_branch i s) = relays s"
    by (simp add: ir_branch_frame)
  show "filter is_relay_write (emitted (ir_branch i) s) = []"
    by (simp add: emitted_def ir_branch_trace)
  show "relays (loop_ir i (maintain i t)) = snd (irHandler_update i (relays t))"
    using maintain_frame(1) [of i t] by (simp add: loop_ir_relays) (simp add: relays_def)
  show "filter is_relay_write (emitted (loop_ir i) (maintain i t)) = []"
    by (simp add: seg_ir)
qed

theorem push_leaves_relays_witness:
  "postRelayState (-1) False True ex_state = (False, emit (HttpPostRelay False True) ex_state) \<and>
   relays (snd (postRelayState (-1) False True ex_state)) = relays ex_state \<and>
   postRelayState 200 False True ex_state_off = (False, ex_state_off) \<and>
   relays (loop_ir (ex_tick_ir\<lparr>wifi_maintain := False\<rparr>)
             (maintain (ex_tick_ir\<lparr>wifi_maintain := False\<rparr>) ex_state)) = (False, True) \<and>
   emitted (loop_ir (ex_tick_ir\<lparr>wifi_maintain := False\<rparr>))
     (maintain (ex_tick_ir\<lparr>wifi_maintain := False\<rparr>) ex_state) = [IrUpdate True]"
  using push_leaves_relays [of "-1" False True ex_state "ex_tick_ir\<lparr>wifi_maintain := False\<rparr>" ex_state]
  by (simp add: step_defs ex_tick_ir_def ex_state_def ex_state_off_def)

text \<open>
  C6. While the connected flag is false each of sendSensorData, postRelayState and
  getRelayState returns false at once and leaves the state, the trace included, as it is.
  In the loop a request is sent only behind its own isConnected() check: a relay-state POST
  only if the check of the IR branch held, a telemetry POST only if the check of the
  telemetry block held, a GET only if the check of the poll block held; an iteration whose
  maintenance step found the WiFi down sends no request at all.
\<close>

theorem no_network_when_disconnected:
  "(\<not> connected s \<longrightarrow>
      sendSensorData code v c1 c2 c3 tc p1 p2 tp s = (False, s) \<and>
      postRelayState code a b s = (False, s) \<and>
      getRelayState code body a b s = ((False, a, b), s)) \<and>
   (filter is_relay_push (tick_trace i t) \<noteq> [] \<longrightarrow>
      isConnected (wifi_ir i) (snd (ir_poll i (maintain i t)))) \<and>
   (filter is_report (tick_trace i t) \<noteq> [] \<longrightarrow>
      isConnected (wifi_web i) (at_telemetry i t)) \<and>
   (HttpGetRelay \<in> set (tick_trace i t) \<longrightarrow> isConnected (wifi_poll i) (at_poll i t)) \<and>
   (\<not> connected (maintain i t) \<longrightarrow> filter is_http (tick_trace i t) = [])"
proof (intro conjI impI)
  assume "\<not> connected s"
  then show "sendSensorData code v c1 c2 c3 tc p1 p2 tp s = (False, s)"
    "postRelayState code a b s = (False, s)"
    "getRelayState code body a b s = ((False, a, b), s)"
    by (simp_all add: sendSensorData_def postRelayState_def getRelayState_def)
next
  assume "filter is_relay_push (tick_trace i t) \<noteq> []"
  then show "isConnected (wifi_ir i) (snd (ir_poll i (maintain i t)))"
    by (simp add: relay_pushes_eq isConnected_def ir_poll_at_ir split: if_splits)
next
  assume "filter is_report (tick_trace i t) \<noteq> []"
  then show "isConnected (wifi_web i) (at_telemetry i t)"
    by (simp add: reports_eq isConnected_def connected_at split: if_splits)
next
  assume "HttpGetRelay \<in> set (tick_trace i t)"
  then have "HttpGetRelay \<in> set (filter is_http (tick_trace i t))"
    by simp
  then show "isConnected (wifi_poll i) (at_poll i t)"
    unfolding http_eq by (simp add: isConnected_def connected_at report_def split: if_splits prod.splits)
next
  assume "\<not> connected (maintain i t)"
  then show "filter is_http (tick_trace i t) = []"
    by (simp add: http_eq maintain_connected)
qed

theorem no_network_when_disconnected_witness:
  "\<not> connected ex_state_off \<and>
   sendSensorData 200 230 2 3 5 5 460 690 1150 ex_state_off = (False, ex_state_off) \<and>
   postRelayState 200 True False ex_state_off = (False, ex_state_off) \<and>
   getRelayState 200 (Doc True True) False False ex_state_off =
     ((False, False, False), ex_state_off) \<and>
   \<not> connected (maintain (ex_tick_ir\<lparr>wifi_maintain := False\<rparr>) ex_state) \<and>
   tick_trace (ex_tick_ir\<lparr>wifi_maintain := False\<rparr>) ex_state =
     [Maintain, IrUpdate True, SensorUpdate 1, SensorUpdate 2, SensorUpdate 3] \<and>
   filter is_relay_push (tick_trace ex_tick_ir ex_state) = [HttpPostRelay False True] \<and>
   isConnected (wifi_ir ex_tick_ir) (snd (ir_poll ex_tick_ir (maintain ex_tick_ir ex_state)))"
proof -
  note a = no_network_when_disconnected [of ex_state_off 200 230 2 3 5 5 460 690 1150
      True False "Doc True True" "ex_tick_ir\<lparr>wifi_maintain := False\<rparr>" ex_state]
  note b = no_network_when_disconnected [of ex_state_off 200 230 2 3 5 5 460 690 1150
      True False "Doc True True" ex_tick_ir ex_state]
  have n: "\<not> connected ex_state_off"
    by (simp add: ex_state_off_def)
  have 1: "sendSensorData 200 230 2 3 5 5 460 690 1150 ex_state_off = (False, ex_state_off) \<and>
      postRelayState 200 True False ex_state_off = (False, ex_state_off)"
    using a [THEN conjunct1] n by simp
  have 2: "getRelayState 200 (Doc True True) False False ex_state_off =
     ((False, False, False), ex_state_off)"
    by (simp add: getRelayState_def ex_state_off_def)
  have 3: "tick_trace (ex_tick_ir\<lparr>wifi_maintain := False\<rparr>) ex_state =
     [Maintain, IrUpdate True, SensorUpdate 1, SensorUpdate 2, SensorUpdate 3]"
    by (simp add: step_defs ex_tick_ir_def ex_state_def)
  have 4: "\<not> connected (maintain (ex_tick_ir\<lparr>wifi_maintain := False\<rparr>) ex_state)"
    by (simp add: maintain_connected)
  have 5: "filter is_relay_push (tick_trace ex_tick_ir ex_state) = [HttpPostRelay False True]"
    by (simp add: step_defs ex_tick_ir_def ex_state_def)
  have 6: "isConnected (wifi_ir ex_tick_ir) (snd (ir_poll ex_tick_ir (maintain ex_tick_ir ex_state)))"
    using b [THEN conjunct2, THEN conjunct1] 5 by simp
  show ?thesis
    using n 1 2 3 4 5 6 by simp
qed

text \<open>
  C7. While connected, sendSensorData returns true exactly when the status code that
  http.POST returned is greater than 0, and postRelayState returns true exactly when it
  equals 200.
\<close>

theorem push_success_criteria:
  "connected s \<Longrightarrow>
   fst (sendSensorData code v c1 c2 c3 tc p1 p2 tp s) = (0 < code) \<and>
   fst (postRelayState code a b s) = (code = 200)"
  by (simp add: sendSensorData_def postRelayState_def Let_def)

theorem push_success_criteria_witness:
  "connected ex_state \<and>
   fst (sendSensorData 404 230 2 3 5 5 460 690 1150 ex_state) \<and>
   \<not> fst (postRelayState 404 True False ex_state) \<and>
   \<not> fst (sendSensorData (-1) 230 2 3 5 5 460 690 1150 ex_state) \<and>
   fst (postRelayState 200 True False ex_state)"
  using push_success_criteria [of ex_state 404 230 2 3 5 5 460 690 1150 True False]
    push_success_criteria [of ex_state "-1" 230 2 3 5 5 460 690 1150 True False]
    push_success_criteria [of ex_state 200 230 2 3 5 5 460 690 1150 True False]
  by (simp add: ex_state_def)

text \<open>
  C8. On each failure path of getRelayState (not connected, a status other than 200, a
  body that does not parse) the call returns false and hands back both reference
  parameters as they were passed in. On the success path a reference parameter is assigned
  the fetched field only when the two differ, and is otherwise left as passed in.
\<close>

theorem getRelayState_atomic:
  "(\<not> connected s \<or> code \<noteq> 200 \<or> body = ParseError \<longrightarrow>
      fst (getRelayState code body r1 r2 s) = (False, r1, r2)) \<and>
   (connected s \<longrightarrow>
      fst (getRelayState 200 (Doc n1 n2) r1 r2 s) =
        (n1 \<noteq> r1 \<or> n2 \<noteq> r2, if n1 \<noteq> r1 then n1 else r1, if n2 \<noteq> r2 then n2 else r2))"
  by (auto simp add: getRelayState_def Let_def split: payload.splits)

theorem getRelayState_atomic_witness:
  "fst (getRelayState 200 (Doc False False) True True ex_state_off) = (False, True, True) \<and>
   fst (getRelayState 500 (Doc False False) True True ex_state) = (False, True, True) \<and>
   fst (getRelayState 200 ParseError True True ex_state) = (False, True, True) \<and>
   connected ex_state \<and>
   fst (getRelayState 200 (Doc False True) True True ex_state) = (True, False, True)"
  using getRelayState_atomic [of ex_state_off 200 "Doc False False" True True False False]
    getRelayState_atomic [of ex_state 500 "Doc False False" True True False True]
    getRelayState_atomic [of ex_state 200 ParseError True True False True]
  by (simp add: ex_state_def ex_state_off_def)

lemma trace_loop_tick: "trace (loop i s) = trace s @ tick_trace i s"
  by (simp add: trace_loop tick_trace_eq)

lemma drains_eq:
  "filter is_drain (tick_trace i s) =
     (if display_due i s then [GetCurrent 1, GetCurrent 2, GetCurrent 3, GetRmsVoltage] else [])"
  by (simp add: tick_trace_eq)

lemma drain_phase: "is_drain e \<Longrightarrow> phase_of e = 3"
  by (cases e) simp_all

lemma report_phase: "is_report e \<Longrightarrow> phase_of e = 4"
  by (cases e) simp_all

lemma takeWhile_sorted_bound:
  fixes f :: "'a \<Rightarrow> nat"
  assumes "sorted (map f xs)" and "d \<in> set xs" and "Q d" and "\<And>x. Q x \<Longrightarrow> f x = k"
    and "e \<in> set (takeWhile (\<lambda>x. \<not> Q x) xs)"
  shows "f e \<le> k"
  using assms
proof (induction xs)
  case Nil
  then show ?case by simp
next
  case (Cons x xs)
  show ?case
  proof (cases "Q x")
    case True
    with Cons.prems(5) show ?thesis by simp
  next
    case False
    with Cons.prems(2,3) have d: "d \<in> set xs" by auto
    from False Cons.prems(5) have "e = x \<or> e \<in> set (takeWhile (\<lambda>x. \<not> Q x) xs)"
      by simp
    then show ?thesis
    proof
      assume "e = x"
      with Cons.prems(1) d have "f e \<le> f d" by simp
      with Cons.prems(3,4) show ?thesis by simp
    next
      assume "e \<in> set (takeWhile (\<lambda>x. \<not> Q x) xs)"
      with Cons.IH [OF _ d Cons.prems(3,4)] Cons.prems(1) show ?thesis by simp
    qed
  qed
qed

lemma cold_reports:
  assumes "display_due i s" and "e \<in> set (before_refresh (tick_trace i s))"
  shows "\<not> is_report e"
proof
  assume r: "is_report e"
  from assms(1) have "GetCurrent 1 \<in> set (filter is_drain (tick_trace i s))"
    by (simp add: drains_eq)
  then have d: "GetCurrent 1 \<in> set (tick_trace i s)" "is_drain (GetCurrent 1 :: 'a event)"
    by simp_all
  have "phase_of e \<le> 3"
    using tick_sorted [of i s] d drain_phase assms(2) unfolding before_refresh_def
    by (rule takeWhile_sorted_bound)
  with report_phase [OF r] show False by simp
qed

lemma unrefreshed_step:
  assumes "unrefreshed_ok s"
  shows "unrefreshed_ok (loop i s)"
proof (cases "filter is_drain (trace s) = []")
  case False
  then obtain x where x: "x \<in> set (trace s)" "\<not> \<not> is_drain x"
    by (auto simp add: filter_empty_conv)
  have "before_refresh (trace (loop i s)) = before_refresh (trace s)"
    unfolding before_refresh_def trace_loop_tick using x by (rule takeWhile_append1)
  with assms False show ?thesis
    by (simp add: unrefreshed_ok_def trace_loop_tick)
next
  case True
  then have clean: "\<And>x. x \<in> set (trace s) \<Longrightarrow> \<not> is_drain x"
    by (simp add: filter_empty_conv)
  from True assms have z: "snapshot s = zero_snapshot"
    by (simp add: unrefreshed_ok_def)
  have all: "before_refresh (trace s) = trace s"
    unfolding before_refresh_def using clean by (simp add: takeWhile_eq_all_conv)
  have split: "before_refresh (trace (loop i s)) = trace s @ before_refresh (tick_trace i s)"
    unfolding before_refresh_def trace_loop_tick using clean by (rule takeWhile_append2)
  have old: "\<forall>e\<in>set (trace s). is_report e \<longrightarrow> e = report zero_snapshot"
    using assms all by (simp add: unrefreshed_ok_def)
  show ?thesis
  proof (cases "display_due i s")
    case True
    then have "filter is_drain (trace (loop i s)) \<noteq> []"
      by (simp add: trace_loop_tick drains_eq)
    moreover have "\<forall>e\<in>set (before_refresh (tick_trace i s)). \<not> is_report e"
      using cold_reports [OF True] by blast
    ultimately show ?thesis
      using old by (auto simp add: unrefreshed_ok_def split)
  next
    case False
    then have s: "snapshot (loop i s) = zero_snapshot"
      by (simp add: snapshot_loop z)
    have "\<forall>e\<in>set (before_refresh (tick_trace i s)). is_report e \<longrightarrow> e = report zero_snapshot"
    proof (intro ballI impI)
      fix e
      assume m: "e \<in> set (before_refresh (tick_trace i s))" and r: "is_report e"
      from m have "e \<in> set (tick_trace i s)"
        unfolding before_refresh_def by (rule set_takeWhileD [THEN conjunct1])
      with r have "e \<in> set (filter is_report (tick_trace i s))"
        by simp
      then show "e = report zero_snapshot"
        by (simp add: reports_eq s split: if_splits)
    qed
    with old s show ?thesis
      by (auto simp add: unrefreshed_ok_def split)
  qed
qed

lemma unrefreshed_run: "unrefreshed_ok s \<Longrightarrow> unrefreshed_ok (run ticks s)"
  by (induction ticks arbitrary: s) (simp_all add: unrefreshed_step)

lemma setup_trace:
  "trace (setup_main b) =
     (if boot_wifi_status b (wait_wifi (boot_wifi_status b) 0 + 1) \<and> boot_wifi b
      then [HttpPostRelay (boot_relay1 b) (boot_relay2 b)] else [])"
  by (simp add: setup_main_def webClient_begin_def boot_state_def isConnected_def
        postRelayState_def emit_def getRelay1State_def getRelay2State_def Let_def
        del: wait_wifi.simps)

lemma setup_snapshot: "snapshot (setup_main b) = zero_snapshot"
  by (simp add: setup_main_def webClient_begin_def boot_state_def isConnected_def
        postRelayState_def emit_def getRelay1State_def getRelay2State_def Let_def
        snapshot_def zero_snapshot_def del: wait_wifi.simps)

lemma unrefreshed_setup: "unrefreshed_ok (setup_main b)"
  by (simp add: unrefreshed_ok_def setup_snapshot) (simp add: setup_trace before_refresh_def)

lemma report_ok_report:
  "report_ok (report x) =
     (case x of (v, c1, c2, c3, tc, p1, p2, tp) \<Rightarrow>
        tc = c1 + c2 \<and> p1 = v * c1 \<and> p2 = v * c2 \<and> tp = p1 + p2)"
  by (simp add: report_def split: prod.splits)

lemma totals_step:
  assumes "report_ok (report (snapshot s))" and "list_all report_ok (trace s)"
  shows "report_ok (report (snapshot (loop i s))) \<and> list_all report_ok (trace (loop i s))"
proof -
  have a: "report_ok (report (snapshot (loop i s)))"
    using assms(1) by (simp add: snapshot_loop report_ok_report)
  have "list_all report_ok (tick_trace i s)"
    using a by (simp add: tick_trace_eq)
  with a assms(2) show ?thesis
    by (simp add: trace_loop_tick)
qed

lemma totals_run:
  "report_ok (report (snapshot s)) \<and> list_all report_ok (trace s) \<Longrightarrow>
   report_ok (report (snapshot (run ticks s))) \<and> list_all report_ok (trace (run ticks s))"
  by (induction ticks arbitrary: s) (simp_all add: totals_step)

lemma snapshot_fields:
  "snapshot s = (v, c1, c2, c3, tc, p1, p2, tp) \<Longrightarrow>
   lastVoltage s = v \<and> lastCurrent1 s = c1 \<and> lastCurrent2 s = c2 \<and> lastCurrent3 s = c3 \<and>
   lastTotalCurrent s = tc \<and> lastPower1 s = p1 \<and> lastPower2 s = p2 \<and> lastTotalPower s = tp"
  by (simp add: snapshot_def)

text \<open>
  C9. In an iteration that refreshes the display the loop stores the four fresh readings
  and computes lastTotalCurrent as lastCurrent1 + lastCurrent2 (channel 3 is stored but not
  added), lastPower1 and lastPower2 as lastVoltage times lastCurrent1 and lastCurrent2, and
  lastTotalPower as lastPower1 + lastPower2. A telemetry request of an iteration carries
  exactly the eight variables as the iteration leaves them. Hence, from start-up on, every
  telemetry request has total_current = current1 + current2, power1 = voltage * current1,
  power2 = voltage * current2 and total_power = power1 + power2, provided that 0 + 0 = 0
  and 0 * 0 = 0 in the arithmetic of the readings (the initial values are all 0).
\<close>

theorem totals_exclude_channel3:
  fixes i :: "('f::{plus,times,zero}) tick"
  shows
  "(display_due i s \<longrightarrow>
      lastCurrent1 (loop i s) = cur1 i \<and> lastCurrent2 (loop i s) = cur2 i \<and>
      lastCurrent3 (loop i s) = cur3 i \<and> lastVoltage (loop i s) = volt i \<and>
      lastTotalCurrent (loop i s) = lastCurrent1 (loop i s) + lastCurrent2 (loop i s) \<and>
      lastPower1 (loop i s) = lastVoltage (loop i s) * lastCurrent1 (loop i s) \<and>
      lastPower2 (loop i s) = lastVoltage (loop i s) * lastCurrent2 (loop i s) \<and>
      lastTotalPower (loop i s) = lastPower1 (loop i s) + lastPower2 (loop i s)) \<and>
   filter is_report (tick_trace i s) =
     (if telemetry_due i s \<and> isConnected (wifi_web i) (at_telemetry i s)
      then [HttpPostData (lastVoltage (loop i s)) (lastCurrent1 (loop i s))
              (lastCurrent2 (loop i s)) (lastCurrent3 (loop i s)) (lastTotalCurrent (loop i s))
              (lastPower1 (loop i s)) (lastPower2 (loop i s)) (lastTotalPower (loop i s))]
      else []) \<and>
   ((0::'f) + 0 = 0 \<and> (0::'f) * 0 = 0 \<longrightarrow>
      list_all report_ok (trace (run ticks (setup_main b) :: 'f state)))"
proof (intro conjI impI)
  assume "display_due i s"
  then have "snapshot (loop i s) =
     (volt i, cur1 i, cur2 i, cur3 i, cur1 i + cur2 i,
      volt i * cur1 i, volt i * cur2 i, volt i * cur1 i + volt i * cur2 i)"
    by (simp add: snapshot_loop)
  from snapshot_fields [OF this]
  show "lastCurrent1 (loop i s) = cur1 i" "lastCurrent2 (loop i s) = cur2 i"
    "lastCurrent3 (loop i s) = cur3 i" "lastVoltage (loop i s) = volt i"
    "lastTotalCurrent (loop i s) = lastCurrent1 (loop i s) + lastCurrent2 (loop i s)"
    "lastPower1 (loop i s) = lastVoltage (loop i s) * lastCurrent1 (loop i s)"
    "lastPower2 (loop i s) = lastVoltage (loop i s) * lastCurrent2 (loop i s)"
    "lastTotalPower (loop i s) = lastPower1 (loop i s) + lastPower2 (loop i s)"
    by simp_all
next
  show "filter is_report (tick_trace i s) =
     (if telemetry_due i s \<and> isConnected (wifi_web i) (at_telemetry i s)
      then [HttpPostData (lastVoltage (loop i s)) (lastCurrent1 (loop i s))
              (lastCurrent2 (loop i s)) (lastCurrent3 (loop i s)) (lastTotalCurrent (loop i s))
              (lastPower1 (loop i s)) (lastPower2 (loop i s)) (lastTotalPower (loop i s))]
      else [])"
    unfolding report_snapshot by (simp add: reports_eq isConnected_def connected_at)
next
  assume z: "(0::'f) + 0 = 0 \<and> (0::'f) * 0 = 0"
  have "report_ok (report (snapshot (setup_main b :: 'f state))) \<and>
      list_all report_ok (trace (setup_main b :: 'f state))"
    using z by (simp add: setup_snapshot setup_trace report_ok_report zero_snapshot_def)
  then show "list_all report_ok (trace (run ticks (setup_main b) :: 'f state))"
    by (rule totals_run [THEN conjunct2])
qed

theorem totals_exclude_channel3_witness:
  "display_due ex_tick ex_state \<and>
   snapshot (loop ex_tick ex_state) = (230, 2, 3, 5, 5, 460, 690, 1150) \<and>
   lastTotalCurrent (loop ex_tick ex_state) = 2 + 3 \<and>
   (0::int) + 0 = 0 \<and> (0::int) * 0 = 0 \<and>
   filter is_report (trace (run [ex_tick_early, ex_tick_late] (setup_main ex_boot))) =
     [HttpPostData 0 0 0 0 0 0 0 0, HttpPostData 230 2 3 5 5 460 690 1150] \<and>
   list_all report_ok (trace (run [ex_tick_early, ex_tick_late] (setup_main ex_boot) :: int state))"
proof -
  note a = totals_exclude_channel3 [of ex_tick ex_state "[ex_tick_early, ex_tick_late]" ex_boot]
  have d: "display_due ex_tick ex_state"
    by (simp add: display_due_def printPeriod_def ex_tick_def ex_state_def)
  have s: "snapshot (loop ex_tick ex_state) = (230, 2, 3, 5, 5, 460, 690, 1150)"
    by (simp add: step_defs ex_tick_def ex_state_def)
  have t: "lastTotalCurrent (loop ex_tick ex_state) = 2 + 3"
    using a [THEN conjunct1] d s by (simp add: snapshot_def)
  have r: "list_all report_ok (trace (run [ex_tick_early, ex_tick_late] (setup_main ex_boot) :: int state))"
    using a [THEN conjunct2, THEN conjunct2] by simp
  have f: "filter is_report (trace (run [ex_tick_early, ex_tick_late] (setup_main ex_boot))) =
     [HttpPostData 0 0 0 0 0 0 0 0, HttpPostData 230 2 3 5 5 460 690 1150]"
    by (simp add: step_defs setup_main_def webClient_begin_def boot_state_def ex_boot_def
          ex_tick_early_def ex_tick_late_def)
  show ?thesis
    using d s t r f by simp
qed

text \<open>
  C10. The eight snapshot variables change only in the display block, which runs when
  printPeriod = 1500 ms have elapsed: an iteration that does not refresh the display leaves
  them as they were. A telemetry request carries the snapshot as the display block of the
  same iteration left it; the sensors are read only in the display block, never in the
  telemetry block. After start-up the snapshot is all 0, and every telemetry request sent
  before the first display refresh carries 0 in all eight fields.
\<close>

theorem telemetry_sends_snapshot:
  fixes i :: "('f::{plus,times,zero}) tick"
  shows
  "(\<not> display_due i s \<longrightarrow> snapshot (loop i s) = snapshot s) \<and>
   display_due i s = (1500 \<le> ms_print i - previousMillis s) \<and>
   filter is_report (tick_trace i s) =
     (if telemetry_due i s \<and> isConnected (wifi_web i) (at_telemetry i s)
      then [report (snapshot (loop_display i (at_display i s)))] else []) \<and>
   (filter is_drain (tick_trace i s) \<noteq> []) = display_due i s \<and>
   filter is_drain (emitted (loop_telemetry i) (at_telemetry i s)) = [] \<and>
   snapshot (setup_main b :: 'f state) = zero_snapshot \<and>
   (\<forall>e\<in>set (before_refresh (trace (run ticks (setup_main b) :: 'f state))).
      is_report e \<longrightarrow> e = report zero_snapshot)"
proof (intro conjI impI)
  assume "\<not> display_due i s"
  then show "snapshot (loop i s) = snapshot s"
    by (simp add: snapshot_loop)
next
  show "display_due i s = (1500 \<le> ms_print i - previousMillis s)"
    by (simp add: display_due_def printPeriod_def)
  show "filter is_report (tick_trace i s) =
     (if telemetry_due i s \<and> isConnected (wifi_web i) (at_telemetry i s)
      then [report (snapshot (loop_display i (at_display i s)))] else [])"
    using snapshot_loop(2) [of i s]
    by (simp add: reports_eq isConnected_def connected_at) (simp add: at_telemetry_def)
  show "(filter is_drain (tick_trace i s) \<noteq> []) = display_due i s"
    by (simp add: drains_eq)
  show "filter is_drain (emitted (loop_telemetry i) (at_telemetry i s)) = []"
    by (simp add: seg_telemetry)
  show "snapshot (setup_main b :: 'f state) = zero_snapshot"
    by (rule setup_snapshot)
  have "unrefreshed_ok (run ticks (setup_main b) :: 'f state)"
    by (rule unrefreshed_run [OF unrefreshed_setup])
  then show "\<forall>e\<in>set (before_refresh (trace (run ticks (setup_main b) :: 'f state))).
      is_report e \<longrightarrow> e = report zero_snapshot"
    by (simp add: unrefreshed_ok_def)
qed

theorem telemetry_sends_snapshot_witness:
  "\<not> display_due ex_tick_early (setup_main ex_boot) \<and>
   telemetry_due ex_tick_early (setup_main ex_boot) \<and>
   snapshot (loop ex_tick_early (setup_main ex_boot)) = (0, 0, 0, 0, 0, 0, 0, 0) \<and>
   before_refresh (trace (run [ex_tick_early, ex_tick_late] (setup_main ex_boot))) =
     [HttpPostRelay False False, Maintain, IrUpdate False,
      SensorUpdate 1, SensorUpdate 2, SensorUpdate 3, HttpPostData 0 0 0 0 0 0 0 0,
      Maintain, IrUpdate False, SensorUpdate 1, SensorUpdate 2, SensorUpdate 3] \<and>
   is_report (HttpPostData 0 0 0 0 0 0 0 (0::int)) \<and>
   HttpPostData 0 0 0 0 0 0 0 (0::int) = report zero_snapshot"
proof -
  note a = telemetry_sends_snapshot [of ex_tick_early "setup_main ex_boot" ex_boot
      "[ex_tick_early, ex_tick_late]"]
  have d: "\<not> display_due ex_tick_early (setup_main ex_boot)"
    by (simp add: display_due_def printPeriod_def ex_tick_early_def setup_main_def
          webClient_begin_def boot_state_def isConnected_def postRelayState_def emit_def
          Let_def ex_boot_def)
  have t: "telemetry_due ex_tick_early (setup_main ex_boot)"
    by (simp add: telemetry_due_def webSendPeriod_def ex_tick_early_def setup_main_def
          webClient_begin_def boot_state_def isConnected_def postRelayState_def emit_def
          Let_def ex_boot_def)
  have s: "snapshot (loop ex_tick_early (setup_main ex_boot)) = (0, 0, 0, 0, 0, 0, 0, 0)"
    using a [THEN conjunct1] d a [THEN conjunct2, THEN conjunct2, THEN conjunct2,
      THEN conjunct2, THEN conjunct2, THEN conjunct1]
    by (simp add: zero_snapshot_def)
  have b: "before_refresh (trace (run [ex_tick_early, ex_tick_late] (setup_main ex_boot))) =
     [HttpPostRelay False False, Maintain, IrUpdate False,
      SensorUpdate 1, SensorUpdate 2, SensorUpdate 3, HttpPostData 0 0 0 0 0 0 0 0,
      Maintain, IrUpdate False, SensorUpdate 1, SensorUpdate 2, SensorUpdate 3]"
    by (simp add: before_refresh_def step_defs setup_main_def webClient_begin_def
          boot_state_def ex_boot_def ex_tick_early_def ex_tick_late_def)
  have m: "HttpPostData 0 0 0 0 0 0 0 (0::int) \<in>
      set (before_refresh (trace (run [ex_tick_early, ex_tick_late] (setup_main ex_boot))))"
    unfolding b by simp
  have r: "is_report (HttpPostData 0 0 0 0 0 0 0 (0::int))"
    by simp
  have e: "HttpPostData 0 0 0 0 0 0 0 (0::int) = report zero_snapshot"
    using a [THEN conjunct2, THEN conjunct2, THEN conjunct2, THEN conjunct2, THEN conjunct2,
      THEN conjunct2, THEN bspec, OF m] r by (rule mp)
  show ?thesis
    using d t s b r e by simp
qed

end
